theory Spec2Isabelle
  imports Complex_Main "HOL-Library.Multiset"
begin

section \<open>JavaScript values and strings\<close>

text \<open>
  A JavaScript string is modelled as a \<^typ>\<open>string\<close>: one \<^typ>\<open>char\<close> per code unit,
  restricted to the code units 0..255. \<open>length\<close> is the \<open>.length\<close> of the source.

  An element of the array that the embeddings endpoint returns is a JavaScript value. The
  source only asks whether it is \<open>NaN\<close> and whether it is a finite number, so a value is
  a finite number, one of the three non-finite numbers, or something that is not a number.
\<close>

datatype js_elem = Num real | NaN | Infinity | NegInfinity | NonNumber

fun Number_isNaN :: "js_elem \<Rightarrow> bool" where
  "Number_isNaN NaN = True"
| "Number_isNaN _ = False"

fun Number_isFinite :: "js_elem \<Rightarrow> bool" where
  "Number_isFinite (Num _) = True"
| "Number_isFinite _ = False"

text \<open>A thrown \<open>Error\<close> with its message.\<close>

datatype js_error = Error string

text \<open>White space as \<open>\s\<close> and \<open>trim()\<close> see it, on the code units 0..255.\<close>

definition is_space :: "char \<Rightarrow> bool" where
  "is_space c \<longleftrightarrow> c \<in> {CHR '' '', CHR 0x09, CHR 0x0A, CHR 0x0B, CHR 0x0C, CHR 0x0D, CHR 0xA0}"

definition trim :: "string \<Rightarrow> string" where
  "trim s = rev (dropWhile is_space (rev (dropWhile is_space s)))"

text \<open>\<open>s.replace(/\s+/g, ' ')\<close>: every maximal run of white space becomes one blank.\<close>

fun collapse_spaces :: "string \<Rightarrow> string" where
  "collapse_spaces [] = []"
| "collapse_spaces [c] = (if is_space c then [CHR '' ''] else [c])"
| "collapse_spaces (c # d # cs) =
     (if is_space c then (if is_space d then collapse_spaces (d # cs)
                          else CHR '' '' # collapse_spaces (d # cs))
      else c # collapse_spaces (d # cs))"

text \<open>\<open>s.replace(/\n+/g, '\n')\<close>: every maximal run of line feeds becomes one line feed.\<close>

fun collapse_newlines :: "string \<Rightarrow> string" where
  "collapse_newlines [] = []"
| "collapse_newlines [c] = [c]"
| "collapse_newlines (c # d # cs) =
     (if c = CHR 0x0A \<and> d = CHR 0x0A then collapse_newlines (d # cs)
      else c # collapse_newlines (d # cs))"

definition startsWith :: "string \<Rightarrow> string \<Rightarrow> bool" where
  "startsWith s p \<longleftrightarrow> take (length p) s = p"

text \<open>\<open>parts.join(sep)\<close>.\<close>

fun join :: "string \<Rightarrow> string list \<Rightarrow> string" where
  "join sep [] = []"
| "join sep [x] = x"
| "join sep (x # y # ys) = x @ sep @ join sep (y # ys)"

text \<open>\<open>s.split(',')\<close> for a one-character separator: never the empty list.\<close>

fun split_on :: "char \<Rightarrow> string \<Rightarrow> string list" where
  "split_on d [] = [[]]"
| "split_on d (c # cs) =
     (if c = d then [] # split_on d cs
      else (case split_on d cs of [] \<Rightarrow> [[c]] | w # ws \<Rightarrow> (c # w) # ws))"

text \<open>
  The text type of the store refuses a string with the code unit 0: a statement that has
  such a string as a parameter raises an error.
\<close>

definition storable :: "string \<Rightarrow> bool" where
  "storable s \<longleftrightarrow> CHR 0x00 \<notin> set s"

definition storable_opt :: "string option \<Rightarrow> bool" where
  "storable_opt v = (case v of None \<Rightarrow> True | Some s \<Rightarrow> storable s)"

text \<open>A number as a template literal writes it: its decimal digits.\<close>

function decimal :: "nat \<Rightarrow> string" where
  "decimal n =
     (if n < 10 then [char_of (48 + n)]
      else decimal (n div 10) @ [char_of (48 + n mod 10)])"
  by pat_completeness auto
termination
  by (relation "measure (\<lambda>n. n)") auto

declare decimal.simps [simp del]

text \<open>\<open>toLowerCase()\<close> on the code units 0..255: A-Z and the Latin-1 capitals.\<close>

definition lower_char :: "char \<Rightarrow> char" where
  "lower_char c =
     (let n = (of_char c :: nat) in
      if (65 \<le> n \<and> n \<le> 90) \<or> (192 \<le> n \<and> n \<le> 222 \<and> n \<noteq> 215) then char_of (n + 32) else c)"

definition toLowerCase :: "string \<Rightarrow> string" where
  "toLowerCase s = map lower_char s"


section \<open>External services\<close>

text \<open>
  The HTTP client with the HTML parser, the text-generation and embedding provider and
  \<open>JSON.parse\<close> are libraries outside the repository. Each is a function of the request,
  and its result is the outcome that the source can observe.
\<close>

text \<open>
  A fetched page after the non-content elements have been removed: for a selector,
  \<open>None\<close> when no element matches and otherwise the \<open>text()\<close> of the match; the
  \<open>text()\<close> of every paragraph in document order; the \<open>text()\<close> of the body.
\<close>

record page =
  selector_text :: "string \<Rightarrow> string option"
  paragraph_texts :: "string list"
  body_text :: string

text \<open>
  \<open>FetchFailed m\<close>: the request or the parser threw; \<open>m\<close> is the message when the thrown
  value is an \<open>Error\<close>.
\<close>

datatype fetch_outcome = FetchFailed "string option" | Fetched page

text \<open>
  \<open>response.data[0].embedding\<close> of a resolved embeddings call, or the rejection (also a
  \<open>TypeError\<close> on reading a missing \<open>data[0]\<close>), with the message of an \<open>Error\<close>.
\<close>

datatype embedding_field = NotAnArray | Array "js_elem list"

datatype embeddings_outcome = EmbeddingsRejected "string option" | EmbeddingsResolved embedding_field

text \<open>
  A chat completion request: the fixed instruction template of each caller with its
  variable part. The answer template carries the query and, per link, title, URL and summary.
\<close>

datatype chat_request =
    SummarizeContent string
  | CategorizeContent string
  | AnswerFromLinks string "(string \<times> string \<times> string) list"

text \<open>
  \<open>response.choices[0].message.content\<close> (\<open>None\<close> for \<open>null\<close>), or a rejection, which
  stands for every exception of the call and of reading the response.
\<close>

datatype chat_outcome = ChatRejected | ChatContent "string option"

text \<open>What \<open>JSON.parse\<close> returns, as far as the source looks at it.\<close>

datatype json = JString string | JArray "json list" | JOther

record services =
  http_get :: "string \<Rightarrow> fetch_outcome"
  url_metadata :: "string \<Rightarrow> string option \<times> string option \<times> string"
  embeddings_create :: "string \<Rightarrow> embeddings_outcome"
  chat_create :: "chat_request \<Rightarrow> chat_outcome"
  JSON_parse :: "string \<Rightarrow> json option"

section \<open>URL utilities: extractUrlContent\<close>

definition contentSelectors :: "string list" where
  "contentSelectors =
     [''article'', ''main'', ''.content'', ''.post-content'', ''.article-content'',
      ''.entry-content'', ''#content'', [CHR ''['', CHR ''r'', CHR ''o'', CHR ''l'', CHR ''e'',
        CHR ''='', CHR 0x22, CHR ''m'', CHR ''a'', CHR ''i'', CHR ''n'', CHR 0x22, CHR '']''],
      ''.post'', ''.blog-post'']"

text \<open>The loop over the selectors: the first one that matches decides, also with empty text.\<close>

fun first_container :: "page \<Rightarrow> string list \<Rightarrow> string" where
  "first_container p [] = []"
| "first_container p (selector # rest) =
     (case selector_text p selector of
        Some t \<Rightarrow> trim t
      | None \<Rightarrow> first_container p rest)"

definition main_content :: "page \<Rightarrow> string" where
  "main_content p =
     (let content = first_container p contentSelectors in
      if content = [] then
        (let paragraphs = map trim (filter (\<lambda>t. length (trim t) > 50) (paragraph_texts p)) in
         if length paragraphs > 0 then join [CHR 0x0A, CHR 0x0A] paragraphs
         else trim (body_text p))
      else content)"

definition clean_up :: "string \<Rightarrow> string" where
  "clean_up content = trim (collapse_newlines (collapse_spaces content))"

definition maxLength :: nat where
  "maxLength = 8000"

definition limit_length :: "string \<Rightarrow> string" where
  "limit_length content =
     (if length content > maxLength then take maxLength content @ ''...'' else content)"

definition extractUrlContent :: "services \<Rightarrow> string \<Rightarrow> string" where
  "extractUrlContent env url =
     (let formattedUrl = (if startsWith url ''http'' then url else ''https://'' @ url) in
      case http_get env formattedUrl of
        FetchFailed msg \<Rightarrow>
          ''Failed to extract content from '' @ url @ ''. Error: '' @
            (case msg of Some m \<Rightarrow> m | None \<Rightarrow> ''Unknown error'')
      | Fetched p \<Rightarrow>
          (let content = limit_length (clean_up (main_content p)) in
           if content = [] then ''Could not extract meaningful content from '' @ url
           else content))"

section \<open>Provider utilities\<close>

definition EMBEDDING_DIMENSIONS :: nat where
  "EMBEDDING_DIMENSIONS = 1536"

definition AVAILABLE_TAGS :: "string list" where
  "AVAILABLE_TAGS =
     [''Article'', ''Blog'', ''News'', ''Tutorial'', ''Documentation'', ''Video'', ''Image'',
      ''Social Media'', ''Research'', ''Tool'', ''Product'', ''Forum'', ''Discussion'',
      ''Review'', ''Music'']"

subsection \<open>generateEmbedding\<close>

text \<open>
  The checks inside the \<open>try\<close>, in the order of the source; each \<open>throw\<close> and the
  rejection of the call reach the \<open>catch\<close>, which throws again with the message wrapped.
\<close>

definition embedding_checks :: "embeddings_outcome \<Rightarrow> string option + js_elem list" where
  "embedding_checks outcome =
     (case outcome of
        EmbeddingsRejected msg \<Rightarrow> Inl msg
      | EmbeddingsResolved NotAnArray \<Rightarrow>
          Inl (Some ''Invalid embedding dimensions: not an array'')
      | EmbeddingsResolved (Array embedding) \<Rightarrow>
          if length embedding \<noteq> EMBEDDING_DIMENSIONS
          then Inl (Some (''Invalid embedding dimensions: '' @ decimal (length embedding)))
          else if list_ex (\<lambda>val. Number_isNaN val \<or> \<not> Number_isFinite val) embedding
          then Inl (Some ''Embedding contains NaN or non-finite values'')
          else Inr embedding)"

definition generateEmbedding :: "services \<Rightarrow> string \<Rightarrow> js_error + js_elem list" where
  "generateEmbedding env text =
     (let truncatedText = (if length text > 8000 then take 8000 text else text) in
      case embedding_checks (embeddings_create env truncatedText) of
        Inl msg \<Rightarrow>
          Inl (Error (''Failed to generate embedding: '' @
                 (case msg of Some m \<Rightarrow> m | None \<Rightarrow> ''Unknown error'')))
      | Inr embedding \<Rightarrow> Inr embedding)"

subsection \<open>generateSummary\<close>

definition generateSummary :: "services \<Rightarrow> string \<Rightarrow> string" where
  "generateSummary env content =
     (let truncatedContent = (if length content > 8000 then take 8000 content @ ''...'' else content) in
      case chat_create env (SummarizeContent truncatedContent) of
        ChatRejected \<Rightarrow> ''No summary available due to processing error.''
      | ChatContent c \<Rightarrow> trim (case c of Some s \<Rightarrow> s | None \<Rightarrow> []))"


subsection \<open>generateTags\<close>

text \<open>
  \<open>responseContent.match(/\[(.*)\]/)\<close>: the group of the leftmost match. \<open>.\<close> stops at a
  line terminator and \<open>*\<close> is greedy, so from the first \<open>[\<close> whose line still has a \<open>]\<close>
  the group runs to the last \<open>]\<close> of that line.
\<close>

definition is_line_terminator :: "char \<Rightarrow> bool" where
  "is_line_terminator c \<longleftrightarrow> c = CHR 0x0A \<or> c = CHR 0x0D"

definition group_to_last_bracket :: "string \<Rightarrow> string option" where
  "group_to_last_bracket rest =
     (let line = takeWhile (\<lambda>c. \<not> is_line_terminator c) rest in
      if CHR '']'' \<in> set line
      then Some (rev (tl (dropWhile (\<lambda>c. c \<noteq> CHR '']'') (rev line))))
      else None)"

fun match_bracket_group :: "string \<Rightarrow> string option" where
  "match_bracket_group [] = None"
| "match_bracket_group (c # cs) =
     (if c = CHR ''['' then
        (case group_to_last_bracket cs of
           Some g \<Rightarrow> Some g
         | None \<Rightarrow> match_bracket_group cs)
      else match_bracket_group cs)"

text \<open>\<open>.replace(/'/g, '"')\<close>\<close>

definition double_quotes :: "string \<Rightarrow> string" where
  "double_quotes s = map (\<lambda>c. if c = CHR 0x27 then CHR 0x22 else c) s"

text \<open>
  \<open>.replace(/,\s*]/g, ']')\<close>: a comma that only white space separates from a \<open>]\<close> goes,
  with that white space; the scan goes on behind the \<open>]\<close>.
\<close>

function drop_trailing_commas :: "string \<Rightarrow> string" where
  "drop_trailing_commas [] = []"
| "drop_trailing_commas (c # cs) =
     (if c = CHR '','' then
        (case dropWhile is_space cs of
           [] \<Rightarrow> c # drop_trailing_commas cs
         | d # ds \<Rightarrow> if d = CHR '']'' then d # drop_trailing_commas ds
                     else c # drop_trailing_commas cs)
      else c # drop_trailing_commas cs)"
  by pat_completeness auto
termination
proof (relation "measure length")
  show "wf (measure length)" by simp
next
  fix c :: char and cs d ds
  assume "dropWhile is_space cs = d # ds"
  then have "length (d # ds) \<le> length cs"
    by (metis length_dropWhile_le)
  then show "(ds, c # cs) \<in> measure length" by simp
qed simp_all

text \<open>
  The fallback of the inner \<open>catch\<close>: brackets and quotes removed, split at the commas,
  each part trimmed, empty parts dropped.
\<close>

definition fallback_split :: "string \<Rightarrow> string list" where
  "fallback_split responseContent =
     filter (\<lambda>tag. tag \<noteq> [])
       (map trim
         (split_on (CHR '','')
           (filter (\<lambda>c. c \<notin> {CHR ''['', CHR '']'', CHR 0x22, CHR 0x27}) responseContent)))"

text \<open>
  The inner \<open>try\<close>: the value that \<open>parsedTags\<close> holds behind it. Both calls of
  \<open>JSON.parse\<close> are inside the \<open>try\<close>, so a syntax error of either leads to the fallback.
\<close>

definition parse_tags :: "(string \<Rightarrow> json option) \<Rightarrow> string \<Rightarrow> json" where
  "parse_tags parse responseContent =
     (case parse responseContent of
        None \<Rightarrow> JArray (map JString (fallback_split responseContent))
      | Some (JArray xs) \<Rightarrow> JArray xs
      | Some _ \<Rightarrow>
          (case match_bracket_group responseContent of
             None \<Rightarrow> JArray []
           | Some g \<Rightarrow>
               if g = [] then JArray []
               else (case parse (''['' @ drop_trailing_commas (double_quotes g) @ '']'') of
                       None \<Rightarrow> JArray (map JString (fallback_split responseContent))
                     | Some v \<Rightarrow> v)))"

text \<open>
  The strings of \<open>parsedTags\<close>, or \<open>None\<close> where the source throws a \<open>TypeError\<close>: the
  value has no \<open>filter\<close>, or an element has no \<open>toLowerCase\<close> (the vocabulary is not
  empty, so the callback of \<open>filter\<close> calls it on every element).
\<close>

fun tag_strings :: "json list \<Rightarrow> string list option" where
  "tag_strings [] = Some []"
| "tag_strings (JString s # rest) = map_option ((#) s) (tag_strings rest)"
| "tag_strings (_ # rest) = None"

definition is_valid_tag :: "string \<Rightarrow> bool" where
  "is_valid_tag tag \<longleftrightarrow> list_ex (\<lambda>validTag. toLowerCase validTag = toLowerCase tag) AVAILABLE_TAGS"

definition correct_case :: "string \<Rightarrow> string" where
  "correct_case tag =
     (case find (\<lambda>validTag. toLowerCase validTag = toLowerCase tag) AVAILABLE_TAGS of
        Some correctCase \<Rightarrow> correctCase
      | None \<Rightarrow> tag)"

definition valid_tags :: "string list \<Rightarrow> string list" where
  "valid_tags parsedTags = take 5 (map correct_case (filter is_valid_tag parsedTags))"

definition generateTags :: "services \<Rightarrow> string \<Rightarrow> string list" where
  "generateTags env content =
     (let truncatedContent = (if length content > 8000 then take 8000 content @ ''...'' else content) in
      case chat_create env (CategorizeContent truncatedContent) of
        ChatRejected \<Rightarrow> [''Article'', ''Blog'']
      | ChatContent c \<Rightarrow>
          (let responseContent = (case c of None \<Rightarrow> ''[]'' | Some s \<Rightarrow> if s = [] then ''[]'' else s) in
           case parse_tags (JSON_parse env) responseContent of
             JArray parsedTags \<Rightarrow>
               (case tag_strings parsedTags of
                  None \<Rightarrow> [''Article'', ''Blog'']
                | Some tags \<Rightarrow>
                    (let validTags = valid_tags tags in
                     if length validTags = 0 then [''Article'', ''Blog''] else validTags))
           | _ \<Rightarrow> [''Article'', ''Blog'']))"

subsection \<open>generateChatResponse\<close>

text \<open>The links as the context block lists them: title, URL and summary with their defaults.\<close>

record relevant_link =
  rl_url :: string
  rl_title :: "string option"
  rl_summary :: "string option"

definition or_default :: "string option \<Rightarrow> string \<Rightarrow> string" where
  "or_default v d = (case v of None \<Rightarrow> d | Some s \<Rightarrow> if s = [] then d else s)"

definition generateChatResponse :: "services \<Rightarrow> string \<Rightarrow> relevant_link list \<Rightarrow> string" where
  "generateChatResponse env query relevantLinks =
     (let context = map (\<lambda>link. (or_default (rl_title link) ''Untitled'', rl_url link,
                                  or_default (rl_summary link) ''No summary available''))
                        relevantLinks in
      case chat_create env (AnswerFromLinks query context) of
        ChatRejected \<Rightarrow> ''Sorry, I encountered an error while generating a response. Please try again later.''
      | ChatContent c \<Rightarrow> or_default c ''I could not generate a response.'')"


section \<open>The record store\<close>

text \<open>
  The tables of the schema, each a list of rows in the order of insertion. \<open>uuid_counter\<close>
  stands for \<open>uuid_generate_v4()\<close>, which never repeats an identifier, and \<open>clock\<close> for
  \<open>now()\<close>; both move on with every use. A statement fails where the store refuses a
  parameter or the schema a row; a lost connection to the store is outside the model.
\<close>

type_synonym uuid = nat

type_synonym timestamp = nat

record link_row =
  link_id :: uuid
  url :: string
  title :: "string option"
  image_url :: "string option"
  domain :: "string option"
  summary :: "string option"
  embedding :: "real list option"
  created_at :: timestamp
  updated_at :: timestamp
  user_id :: uuid

record tag_row =
  tag_id :: uuid
  tag_name :: string

record database =
  links :: "link_row list"
  tags :: "tag_row list"
  link_to_tag :: "(uuid \<times> uuid) list"
  uuid_counter :: nat
  clock :: nat

text \<open>The store after the setup script: no links, the seeded tags, no connections.\<close>

definition seeded_tag_names :: "string list" where
  "seeded_tag_names = [''Image'', ''Video'', ''News'', ''Blog'', ''Music'', ''Social Media Post'']"

definition initial_database :: database where
  "initial_database =
     \<lparr>links = [],
      tags = map (\<lambda>(i, n). \<lparr>tag_id = i, tag_name = n\<rparr>) (zip [0..<6] seeded_tag_names),
      link_to_tag = [], uuid_counter = 6, clock = 0\<rparr>"

text \<open>
  \<open>JSON.stringify(embedding)\<close> cast to \<open>vector\<close>. A non-finite number is written as
  \<open>null\<close>, which the cast refuses. The components of a vector are 4-byte floats: the cast
  also refuses a number that rounds to an infinite one, that is, one of magnitude
  \<open>2^128 - 2^103\<close> or more. It refuses a vector without components. The rounding of a
  number in range to a 4-byte float is not modelled: the stored component is the number.
\<close>

definition float4_in_range :: "real \<Rightarrow> bool" where
  "float4_in_range r \<longleftrightarrow> \<bar>r\<bar> < 2 ^ 128 - 2 ^ 103"

fun vector_components :: "js_elem list \<Rightarrow> real list option" where
  "vector_components [] = Some []"
| "vector_components (Num r # rest) =
     (if float4_in_range r then map_option ((#) r) (vector_components rest) else None)"
| "vector_components (_ # rest) = None"

definition to_vector :: "js_elem list \<Rightarrow> real list option" where
  "to_vector v = (if v = [] then None else vector_components v)"

text \<open>
  \<open>INSERT INTO public.links\<close>: identifier and both timestamps are the column defaults.
  \<open>None\<close>: the store refuses a text parameter, or the column \<open>vector(1536)\<close> a vector of
  another dimension; nothing is written then.
\<close>

definition insert_link ::
  "string \<Rightarrow> string option \<Rightarrow> string option \<Rightarrow> string \<Rightarrow> string \<Rightarrow> uuid \<Rightarrow> real list
     \<Rightarrow> database \<Rightarrow> database option" where
  "insert_link u t i d s owner vec db =
     (if storable u \<and> storable_opt t \<and> storable_opt i \<and> storable d \<and> storable s
         \<and> length vec = 1536
      then Some (db\<lparr>links := links db @
            [\<lparr>link_id = uuid_counter db, url = u, title = t, image_url = i, domain = Some d,
              summary = Some s, embedding = Some vec, created_at = clock db,
              updated_at = clock db, user_id = owner\<rparr>],
        uuid_counter := Suc (uuid_counter db),
        clock := Suc (clock db)\<rparr>)
      else None)"

text \<open>
  \<open>prisma.link.findFirst\<close> with \<open>orderBy: {createdAt: 'desc'}\<close>: a row with the greatest
  \<open>created_at\<close> among the matching ones (of several, the one inserted first).
\<close>

fun newest :: "link_row list \<Rightarrow> link_row option" where
  "newest [] = None"
| "newest (l # ls) =
     (case newest ls of
        None \<Rightarrow> Some l
      | Some m \<Rightarrow> if created_at l < created_at m then Some m else Some l)"

definition findFirst_link :: "string \<Rightarrow> uuid \<Rightarrow> database \<Rightarrow> link_row option" where
  "findFirst_link u owner db = newest (filter (\<lambda>l. url l = u \<and> user_id l = owner) (links db))"

text \<open>\<open>prisma.link.findUnique\<close> with \<open>where: {id, userId}\<close>.\<close>

definition findUnique_link :: "uuid \<Rightarrow> uuid \<Rightarrow> database \<Rightarrow> link_row option" where
  "findUnique_link i owner db = find (\<lambda>l. link_id l = i \<and> user_id l = owner) (links db)"

text \<open>
  \<open>prisma.tag.upsert\<close> with \<open>where: {name}\<close>, an empty \<open>update\<close> and \<open>create: {name}\<close>
  is two statements of the store: the read of the row of that name and, when there is
  none, its creation. The creation raises an error when the name is there by then (the
  unique constraint on \<open>tags.name\<close>); both raise one for a name that the store refuses.
\<close>

definition tag_find :: "string \<Rightarrow> database \<Rightarrow> tag_row option" where
  "tag_find tagName db = find (\<lambda>t. tag_name t = tagName) (tags db)"

definition tag_create :: "string \<Rightarrow> database \<Rightarrow> (tag_row \<times> database) option" where
  "tag_create tagName db =
     (if \<not> storable tagName \<or> tagName \<in> set (map tag_name (tags db)) then None
      else (let t = \<lparr>tag_id = uuid_counter db, tag_name = tagName\<rparr> in
            Some (t, db\<lparr>tags := tags db @ [t], uuid_counter := Suc (uuid_counter db)\<rparr>)))"

text \<open>The upsert without another statement between its two; \<open>None\<close> is the error.\<close>

definition tag_upsert :: "string \<Rightarrow> database \<Rightarrow> (tag_row \<times> database) option" where
  "tag_upsert tagName db =
     (if \<not> storable tagName then None
      else case tag_find tagName db of
        Some t \<Rightarrow> Some (t, db)
      | None \<Rightarrow> tag_create tagName db)"

text \<open>
  \<open>INSERT INTO public.link_to_tag ... ON CONFLICT (link_id, tag_id) DO NOTHING\<close>: nothing
  happens when the pair is there; otherwise both foreign keys must point to a row.
\<close>

definition insert_link_to_tag :: "uuid \<Rightarrow> uuid \<Rightarrow> database \<Rightarrow> database option" where
  "insert_link_to_tag linkId tagId db =
     (if (linkId, tagId) \<in> set (link_to_tag db) then Some db
      else if linkId \<in> set (map link_id (links db)) \<and> tagId \<in> set (map tag_id (tags db))
      then Some (db\<lparr>link_to_tag := link_to_tag db @ [(linkId, tagId)]\<rparr>)
      else None)"

section \<open>The link controller\<close>

text \<open>
  A function that writes to the store returns what it returns or throws together with the
  store it leaves: there is no transaction, so the writes before a \<open>throw\<close> stay.
\<close>

fun createTagsForLink :: "uuid \<Rightarrow> string list \<Rightarrow> database \<Rightarrow> (js_error + unit) \<times> database" where
  "createTagsForLink linkId [] db = (Inr (), db)"
| "createTagsForLink linkId (tagName # rest) db =
     (case tag_upsert tagName db of
        None \<Rightarrow> (Inl (Error ''Failed to create tags for link''), db)
      | Some (tag, db1) \<Rightarrow>
          (case insert_link_to_tag linkId (tag_id tag) db1 of
             None \<Rightarrow> (Inl (Error ''Failed to create tags for link''), db1)
           | Some db2 \<Rightarrow> createTagsForLink linkId rest db2))"

text \<open>The join of \<open>tags\<close> with \<open>link_to_tag\<close> on the tag identifier, for one link.\<close>

definition getTagsForLink :: "uuid \<Rightarrow> database \<Rightarrow> tag_row list" where
  "getTagsForLink linkId db =
     concat (map (\<lambda>t. map (\<lambda>lt. t) (filter (\<lambda>lt. snd lt = tag_id t \<and> fst lt = linkId) (link_to_tag db)))
                 (tags db))"

definition deleteTagsForLink :: "uuid \<Rightarrow> database \<Rightarrow> database" where
  "deleteTagsForLink linkId db = db\<lparr>link_to_tag := filter (\<lambda>lt. fst lt \<noteq> linkId) (link_to_tag db)\<rparr>"

record link_response =
  res_id :: uuid
  res_url :: string
  res_title :: "string option"
  res_image :: "string option"
  res_domain :: "string option"
  res_summary :: "string option"
  res_tags :: "string list"
  res_embedding :: "real list option"
  res_createdAt :: timestamp
  res_updatedAt :: timestamp

definition formatLinkResponse :: "link_row \<Rightarrow> real list option \<Rightarrow> tag_row list \<Rightarrow> link_response" where
  "formatLinkResponse link emb tgs =
     \<lparr>res_id = link_id link, res_url = url link, res_title = title link,
      res_image = image_url link, res_domain = domain link, res_summary = summary link,
      res_tags = map tag_name tgs, res_embedding = emb,
      res_createdAt = created_at link, res_updatedAt = updated_at link\<rparr>"

text \<open>\<open>supabase.from('links').select('embedding').eq('id', id).single()\<close>\<close>

definition select_embedding :: "uuid \<Rightarrow> database \<Rightarrow> real list option" where
  "select_embedding i db =
     (case find (\<lambda>l. link_id l = i) (links db) of None \<Rightarrow> None | Some l \<Rightarrow> embedding l)"

text \<open>
  A response: status, \<open>message\<close> and the \<open>link\<close> of the body. The field errors of a failed
  validation and the error text of development mode are left out.
\<close>

datatype response = Response (status: nat) (message: string) (link_body: "link_response option")

record user =
  user_ident :: uuid
  email :: string

text \<open>The result of \<open>validate(schema)(req.body)\<close>.\<close>

datatype 'a validation = Invalid | Valid 'a

definition createLink ::
  "services \<Rightarrow> user option \<Rightarrow> string validation \<Rightarrow> database \<Rightarrow> response \<times> database" where
  "createLink env req_user validation db =
     (case req_user of
        None \<Rightarrow> (Response 401 ''Not authenticated'' None, db)
      | Some usr \<Rightarrow>
     (case validation of
        Invalid \<Rightarrow> (Response 400 ''Validation error'' None, db)
      | Valid u \<Rightarrow>
     (let (t, i, d) = url_metadata env u;
          content = extractUrlContent env u;
          s = generateSummary env content;
          suggestedTags = generateTags env content
      in
      case generateEmbedding env content of
        Inl e \<Rightarrow> (Response 500 ''Error processing link'' None, db)
      | Inr emb \<Rightarrow>
          if length emb \<noteq> 1536 then (Response 500 ''Failed to generate valid embedding'' None, db)
          else
     (case to_vector emb of
        None \<Rightarrow> (Response 500 ''Error processing link'' None, db)
      | Some vec \<Rightarrow>
     (case insert_link u t i d s (user_ident usr) vec db of
        None \<Rightarrow> (Response 500 ''Error processing link'' None, db)
      | Some db1 \<Rightarrow>
     (case findFirst_link u (user_ident usr) db1 of
        None \<Rightarrow> (Response 500 ''Failed to create link'' None, db1)
      | Some newLink \<Rightarrow>
     (case createTagsForLink (link_id newLink) suggestedTags db1 of
        (Inl e, db2) \<Rightarrow> (Response 500 ''Error processing link'' None, db2)
      | (Inr _, db2) \<Rightarrow>
          (Response 201 ''Link created successfully''
             (Some (formatLinkResponse newLink (select_embedding (link_id newLink) db2)
                      (getTagsForLink (link_id newLink) db2))),
           db2))))))))"

text \<open>The body of \<open>PUT /api/links/:id\<close> behind the validation: three optional fields.\<close>

record update_body =
  new_title :: "string option"
  new_summary :: "string option"
  new_tags :: "string list option"

text \<open>
  \<open>prisma.link.update\<close> with \<open>where: {id}\<close>: the fields present in \<open>data\<close> are written.
  \<open>updated_at\<close> takes the time of the statement. \<open>None\<close>: the store refuses a text
  parameter; nothing is written then.
\<close>

definition update_link ::
  "uuid \<Rightarrow> string option \<Rightarrow> string option \<Rightarrow> database \<Rightarrow> database option" where
  "update_link i t s db =
     (if storable_opt t \<and> storable_opt s
      then Some (db\<lparr>links := map (\<lambda>l. if link_id l = i
                           then l\<lparr>title := (case t of None \<Rightarrow> title l | Some v \<Rightarrow> Some v),
                                  summary := (case s of None \<Rightarrow> summary l | Some v \<Rightarrow> Some v),
                                  updated_at := clock db\<rparr>
                           else l) (links db),
        clock := Suc (clock db)\<rparr>)
      else None)"

definition updateLink ::
  "user option \<Rightarrow> uuid \<Rightarrow> update_body validation \<Rightarrow> database \<Rightarrow> response \<times> database" where
  "updateLink req_user i validation db =
     (case req_user of
        None \<Rightarrow> (Response 401 ''Not authenticated'' None, db)
      | Some usr \<Rightarrow>
     (case validation of
        Invalid \<Rightarrow> (Response 400 ''Validation error'' None, db)
      | Valid body \<Rightarrow>
     (case findUnique_link i (user_ident usr) db of
        None \<Rightarrow> (Response 404 ''Link not found'' None, db)
      | Some existingLink \<Rightarrow>
     (case update_link i (new_title body) (new_summary body) db of
        None \<Rightarrow> (Response 500 ''Server error updating link'' None, db)
      | Some db1 \<Rightarrow>
     (case find (\<lambda>l. link_id l = i) (links db1) of
        None \<Rightarrow> (Response 500 ''Server error updating link'' None, db1)
      | Some updatedLink \<Rightarrow>
     (case (case new_tags body of
              None \<Rightarrow> (Inr (), db1)
            | Some tgs \<Rightarrow> createTagsForLink i tgs (deleteTagsForLink i db1)) of
        (Inl e, db2) \<Rightarrow> (Response 500 ''Server error updating link'' None, db2)
      | (Inr _, db2) \<Rightarrow>
          (Response 200 ''Link updated successfully''
             (Some (formatLinkResponse updatedLink (select_embedding i db2)
                      (getTagsForLink i db2))),
           db2)))))))"



section \<open>Vector search: match_links\<close>

text \<open>
  A \<open>float\<close> of the store is a number or NaN: the distance operator returns a number
  between 0 and 2, or NaN when a vector has norm zero, and arithmetic with NaN gives NaN.
  The store compares and sorts NaN as equal to itself and greater than every number;
  that is the order of the type. The rounding of the numbers is not modelled.
\<close>

datatype float8 = F8 real | NaN8

instantiation float8 :: "{zero, one, minus, linorder}"
begin

definition zero_float8 :: float8 where
  "0 = F8 0"

definition one_float8 :: float8 where
  "1 = F8 1"

definition minus_float8 :: "float8 \<Rightarrow> float8 \<Rightarrow> float8" where
  "a - b = (case a of NaN8 \<Rightarrow> NaN8 | F8 x \<Rightarrow> (case b of NaN8 \<Rightarrow> NaN8 | F8 y \<Rightarrow> F8 (x - y)))"

definition less_eq_float8 :: "float8 \<Rightarrow> float8 \<Rightarrow> bool" where
  "a \<le> b \<longleftrightarrow> (case b of NaN8 \<Rightarrow> True | F8 y \<Rightarrow> (case a of NaN8 \<Rightarrow> False | F8 x \<Rightarrow> x \<le> y))"

definition less_float8 :: "float8 \<Rightarrow> float8 \<Rightarrow> bool" where
  "a < b \<longleftrightarrow> a \<le> b \<and> \<not> b \<le> (a :: float8)"

instance
proof
  fix x y z :: float8
  show "(x < y) = (x \<le> y \<and> \<not> y \<le> x)" by (simp add: less_float8_def)
  show "x \<le> x" by (simp add: less_eq_float8_def split: float8.splits)
  show "x \<le> y \<Longrightarrow> y \<le> z \<Longrightarrow> x \<le> z"
    by (auto simp: less_eq_float8_def split: float8.splits)
  show "x \<le> y \<Longrightarrow> y \<le> x \<Longrightarrow> x = y"
    by (auto simp: less_eq_float8_def split: float8.splits)
  show "x \<le> y \<or> y \<le> x"
    by (auto simp: less_eq_float8_def split: float8.splits)
qed

end

text \<open>
  \<open>distance\<close> is the cosine distance operator \<open><=>\<close> of the vector extension, a parameter of
  the model. SQL leaves the order of rows with equal sort keys open; the model keeps them
  in the order of the table.
\<close>

record match_row =
  m_id :: uuid
  m_url :: string
  m_title :: "string option"
  m_image :: "string option"
  m_domain :: "string option"
  m_summary :: "string option"
  similarity :: float8

text \<open>The rows that the \<open>WHERE\<close> clause keeps, with the \<open>SELECT\<close> list applied.\<close>

fun select_matches ::
  "(real list \<Rightarrow> real list \<Rightarrow> float8) \<Rightarrow> real list \<Rightarrow> float8 \<Rightarrow> uuid \<Rightarrow> link_row list
     \<Rightarrow> match_row list" where
  "select_matches distance query_embedding match_threshold uid [] = []"
| "select_matches distance query_embedding match_threshold uid (l # ls) =
     (case embedding l of
        None \<Rightarrow> select_matches distance query_embedding match_threshold uid ls
      | Some e \<Rightarrow>
          if user_id l = uid \<and> 1 - distance e query_embedding > match_threshold
          then \<lparr>m_id = link_id l, m_url = url l, m_title = title l, m_image = image_url l,
                m_domain = domain l, m_summary = summary l,
                similarity = 1 - distance e query_embedding\<rparr>
               # select_matches distance query_embedding match_threshold uid ls
          else select_matches distance query_embedding match_threshold uid ls)"

text \<open>\<open>ORDER BY similarity DESC\<close>, as an insertion sort.\<close>

fun insert_desc :: "match_row \<Rightarrow> match_row list \<Rightarrow> match_row list" where
  "insert_desc r [] = [r]"
| "insert_desc r (x # xs) =
     (if similarity x \<le> similarity r then r # x # xs else x # insert_desc r xs)"

fun order_by_similarity_desc :: "match_row list \<Rightarrow> match_row list" where
  "order_by_similarity_desc [] = []"
| "order_by_similarity_desc (r # rs) = insert_desc r (order_by_similarity_desc rs)"

text \<open>The function; \<open>None\<close> is the error that a negative \<open>LIMIT\<close> raises.\<close>

definition match_links ::
  "(real list \<Rightarrow> real list \<Rightarrow> float8) \<Rightarrow> real list \<Rightarrow> float8 \<Rightarrow> int \<Rightarrow> uuid \<Rightarrow> database
     \<Rightarrow> match_row list option" where
  "match_links distance query_embedding match_threshold match_count uid db =
     (if match_count < 0 then None
      else Some (take (nat match_count)
                  (order_by_similarity_desc
                    (select_matches distance query_embedding match_threshold uid (links db)))))"

text \<open>
  The cosine distance as the extension computes it, for the concrete runs below: the
  quotient of the dot product and the root of the product of the squared norms, which is
  \<open>0 / 0\<close>, NaN, when a norm is zero, kept between -1 and 1 and taken from 1.
\<close>

definition dot :: "real list \<Rightarrow> real list \<Rightarrow> real" where
  "dot a b = sum_list (map2 (*) a b)"

definition cosine_distance :: "real list \<Rightarrow> real list \<Rightarrow> float8" where
  "cosine_distance a b =
     (if dot a a * dot b b = 0 then NaN8
      else F8 (1 - max (- 1) (min 1 (dot a b / sqrt (dot a a * dot b b)))))"

section \<open>The chat controller\<close>

record similar_link =
  sl_id :: uuid
  sl_url :: string
  sl_title :: "string option"
  sl_domain :: "string option"
  sl_summary :: "string option"
  sl_similarity :: float8
  relevanceScore :: "int option"

text \<open>A response of the chat route: an error with its message, or answer and links.\<close>

datatype chat_response =
    ChatFailure nat string
  | ChatSuccess (response_text: string) (response_links: "similar_link list")

definition as_relevant_link :: "match_row \<Rightarrow> relevant_link" where
  "as_relevant_link r = \<lparr>rl_url = m_url r, rl_title = m_title r, rl_summary = m_summary r\<rparr>"

text \<open>\<open>Math.round(link.similarity * 100)\<close>; \<open>None\<close> is NaN.\<close>

definition Math_round_percent :: "float8 \<Rightarrow> int option" where
  "Math_round_percent x = (case x of NaN8 \<Rightarrow> None | F8 s \<Rightarrow> Some \<lfloor>s * 100 + 1 / 2\<rfloor>)"

definition format_similar_link :: "match_row \<Rightarrow> similar_link" where
  "format_similar_link r =
     \<lparr>sl_id = m_id r, sl_url = m_url r, sl_title = m_title r, sl_domain = m_domain r,
      sl_summary = m_summary r, sl_similarity = similarity r,
      relevanceScore = Math_round_percent (similarity r)\<rparr>"

definition chatWithLinks ::
  "services \<Rightarrow> (real list \<Rightarrow> real list \<Rightarrow> float8) \<Rightarrow> user option \<Rightarrow> string validation
     \<Rightarrow> database \<Rightarrow> chat_response" where
  "chatWithLinks env distance req_user validation db =
     (case req_user of
        None \<Rightarrow> ChatFailure 401 ''Not authenticated''
      | Some usr \<Rightarrow>
     (case validation of
        Invalid \<Rightarrow> ChatFailure 400 ''Validation error''
      | Valid query \<Rightarrow>
     (let enhancedQuery = ''This is about: '' @ query in
      case generateEmbedding env enhancedQuery of
        Inl e \<Rightarrow> ChatFailure 500 ''Server error processing chat request''
      | Inr queryEmbedding \<Rightarrow>
     (case to_vector queryEmbedding of
        None \<Rightarrow> ChatFailure 500 ''Error finding similar links''
      | Some q \<Rightarrow>
     (case match_links distance q 0 5 (user_ident usr) db of
        None \<Rightarrow> ChatFailure 500 ''Error finding similar links''
      | Some similarLinks \<Rightarrow>
          if length similarLinks = 0
          then ChatSuccess (generateChatResponse env query []) []
          else ChatSuccess (generateChatResponse env query (map as_relevant_link similarLinks))
                           (map format_similar_link similarLinks))))))"

section \<open>Concurrent invocations of createTagsForLink\<close>












section \<open>Sequences of write requests\<close>





text \<open>The tag names of a link as the responses list them.\<close>

definition tag_names :: "uuid \<Rightarrow> database \<Rightarrow> string list" where
  "tag_names linkId db = map tag_name (getTagsForLink linkId db)"

text \<open>
  What the schema and the generators guarantee of a store: identifiers and creation times
  are older than the generators' next values, tag identifiers are unique, and a connection
  points to a link of the table.
\<close>

definition store_invariant :: "database \<Rightarrow> bool" where
  "store_invariant db \<longleftrightarrow>
     (\<forall>l \<in> set (links db). link_id l < uuid_counter db \<and> created_at l < clock db)
     \<and> (\<forall>t \<in> set (tags db). tag_id t < uuid_counter db)
     \<and> distinct (map tag_id (tags db))
     \<and> (\<forall>lt \<in> set (link_to_tag db).
           fst lt \<in> set (map link_id (links db)) \<and> snd lt < uuid_counter db)"

section \<open>Sample inputs\<close>

text \<open>
  Services for the concrete runs: the page cannot be fetched, the chat provider rejects,
  and the embeddings call has the given outcome.
\<close>

definition unit_embedding :: "js_elem list" where
  "unit_embedding = Num 1 # replicate 1535 (Num 0)"

definition sample_services :: "embeddings_outcome \<Rightarrow> services" where
  "sample_services outcome =
     \<lparr>http_get = (\<lambda>u. FetchFailed (Some ''timeout of 8000ms exceeded'')),
      url_metadata = (\<lambda>u. (None, None, ''example.com'')),
      embeddings_create = (\<lambda>t. outcome),
      chat_create = (\<lambda>r. ChatRejected),
      JSON_parse = (\<lambda>s. None)\<rparr>"

definition sample_user :: user where
  "sample_user = \<lparr>user_ident = 7, email = ''reader@example.com''\<rparr>"

text \<open>Services whose page has an \<open>article\<close> element and nothing else of interest.\<close>

definition article_page :: page where
  "article_page =
     \<lparr>selector_text = (\<lambda>sel. if sel = ''article'' then Some ''  Saved   pages  stay '' else None),
      paragraph_texts = [],
      body_text = ''menu Saved pages stay footer''\<rparr>"

definition article_services :: services where
  "article_services =
     \<lparr>http_get = (\<lambda>u. Fetched article_page),
      url_metadata = (\<lambda>u. (Some ''Saved'', None, ''example.com'')),
      embeddings_create = (\<lambda>t. EmbeddingsResolved (Array unit_embedding)),
      chat_create = (\<lambda>r. ChatRejected),
      JSON_parse = (\<lambda>s. None)\<rparr>"

text \<open>A store with one link of the sample user, as an ingestion leaves it.\<close>

definition stored_link :: link_row where
  "stored_link =
     \<lparr>link_id = 6, url = ''https://example.com/a'', title = Some ''Saved'', image_url = None,
      domain = Some ''example.com'', summary = Some ''A page about saving pages.'',
      embedding = Some (1 # replicate 1535 0), created_at = 0, updated_at = 0, user_id = 7\<rparr>"

definition one_link_database :: database where
  "one_link_database = initial_database\<lparr>links := [stored_link], uuid_counter := 7, clock := 1\<rparr>"

text \<open>A store with a second, later link of the same user and the same embedding.\<close>

definition newer_link :: link_row where
  "newer_link =
     \<lparr>link_id = 8, url = ''https://example.com/b'', title = Some ''Saved again'', image_url = None,
      domain = Some ''example.com'', summary = Some ''The same page, saved later.'',
      embedding = Some (1 # replicate 1535 0), created_at = 1, updated_at = 1, user_id = 7\<rparr>"

definition tied_database :: database where
  "tied_database =
     initial_database\<lparr>links := [stored_link, newer_link], uuid_counter := 9, clock := 2\<rparr>"

text \<open>
  A store with a second link of the same user whose embedding has only zeros, the vector
  that an ingestion stores when the provider answers with 1536 zeros.
\<close>

definition zero_link :: link_row where
  "zero_link =
     \<lparr>link_id = 8, url = ''https://example.com/blank'', title = Some ''Blank'', image_url = None,
      domain = Some ''example.com'', summary = Some ''An empty page.'',
      embedding = Some (replicate 1536 0), created_at = 1, updated_at = 1, user_id = 7\<rparr>"

definition zero_database :: database where
  "zero_database =
     initial_database\<lparr>links := [stored_link, zero_link], uuid_counter := 9, clock := 2\<rparr>"

text \<open>A tag name with the character U+0000, which a JSON body can carry.\<close>

definition name_with_nul :: string where
  "name_with_nul = [CHR ''R'', CHR 0x00]"


section \<open>Tag classification\<close>

lemma correct_case_in_vocabulary:
  assumes "is_valid_tag tag"
  shows "correct_case tag \<in> set AVAILABLE_TAGS"
proof (cases "find (\<lambda>validTag. toLowerCase validTag = toLowerCase tag) AVAILABLE_TAGS")
  case None
  then have "\<not> list_ex (\<lambda>validTag. toLowerCase validTag = toLowerCase tag) AVAILABLE_TAGS"
    by (simp add: find_None_iff list_ex_iff)
  then show ?thesis using assms by (simp add: is_valid_tag_def)
next
  case (Some x)
  then obtain i where "i < length AVAILABLE_TAGS" "x = AVAILABLE_TAGS ! i"
    unfolding find_Some_iff by blast
  then have "x \<in> set AVAILABLE_TAGS" by simp
  then show ?thesis using Some by (simp add: correct_case_def)
qed

lemma valid_tags_vocabulary: "set (valid_tags ts) \<subseteq> set AVAILABLE_TAGS"
proof
  fix x assume "x \<in> set (valid_tags ts)"
  then have "x \<in> set (map correct_case (filter is_valid_tag ts))"
    unfolding valid_tags_def by (rule in_set_takeD)
  then show "x \<in> set AVAILABLE_TAGS" using correct_case_in_vocabulary by auto
qed

lemma valid_tags_length: "length (valid_tags ts) \<le> 5"
  by (simp add: valid_tags_def)


lemma default_pair_vocabulary: "set [''Article'', ''Blog''] \<subseteq> set AVAILABLE_TAGS"
  by (simp add: AVAILABLE_TAGS_def)

lemma generateTags_cases:
  "generateTags env content = [''Article'', ''Blog'']
   \<or> (\<exists>ts. generateTags env content = valid_tags ts \<and> valid_tags ts \<noteq> [])"
  by (auto simp: generateTags_def Let_def split: chat_outcome.splits json.splits option.splits)

lemma generateTags_vocabulary:
  "set (generateTags env content) \<subseteq> set AVAILABLE_TAGS
   \<and> length (generateTags env content) \<le> 5 \<and> generateTags env content \<noteq> []"
  using generateTags_cases[of env content]
proof
  assume "generateTags env content = [''Article'', ''Blog'']"
  then show ?thesis using default_pair_vocabulary by simp
next
  assume "\<exists>ts. generateTags env content = valid_tags ts \<and> valid_tags ts \<noteq> []"
  then obtain ts where "generateTags env content = valid_tags ts" "valid_tags ts \<noteq> []"
    by blast
  then show ?thesis using valid_tags_vocabulary[of ts] valid_tags_length[of ts] by simp
qed

lemma vocabulary_storable: "\<forall>n \<in> set AVAILABLE_TAGS. storable n"
  by (simp add: AVAILABLE_TAGS_def storable_def)

lemma generateTags_storable: "\<forall>n \<in> set (generateTags env content). storable n"
  using generateTags_vocabulary[of env content] vocabulary_storable by blast

section \<open>Embedding validation\<close>

lemma not_finite_iff: "(Number_isNaN x \<or> \<not> Number_isFinite x) \<longleftrightarrow> \<not> Number_isFinite x"
  by (cases x) simp_all

lemma embedding_checks_Inr:
  "embedding_checks outcome = Inr v \<longleftrightarrow>
     outcome = EmbeddingsResolved (Array v) \<and> length v = 1536 \<and> list_all Number_isFinite v"
  by (auto simp: embedding_checks_def EMBEDDING_DIMENSIONS_def not_finite_iff list_ex_iff list_all_iff
           split: embeddings_outcome.splits embedding_field.splits)

lemma generateEmbedding_Inr:
  "generateEmbedding env text = Inr v \<longleftrightarrow>
     embeddings_create env (if length text > 8000 then take 8000 text else text)
       = EmbeddingsResolved (Array v)
     \<and> length v = 1536 \<and> list_all Number_isFinite v"
  unfolding generateEmbedding_def Let_def
  by (cases "embedding_checks (embeddings_create env (if length text > 8000 then take 8000 text else text))")
     (auto simp: embedding_checks_Inr[symmetric])



lemma vector_components_zeros:
  "vector_components (replicate n (Num 0)) = Some (replicate n 0)"
  by (induction n) (simp_all add: float4_in_range_def)

lemma to_vector_unit_embedding: "to_vector unit_embedding = Some (1 # replicate 1535 0)"
  by (simp add: to_vector_def unit_embedding_def vector_components_zeros float4_in_range_def)

lemma unit_embedding_valid:
  "length unit_embedding = 1536 \<and> list_all Number_isFinite unit_embedding"
  by (simp add: unit_embedding_def list_all_iff)

lemma sample_generateEmbedding:
  "generateEmbedding (sample_services (EmbeddingsResolved (Array unit_embedding))) text
     = Inr unit_embedding"
  by (simp add: generateEmbedding_Inr sample_services_def unit_embedding_valid)

section \<open>Frame lemmas of the store operations\<close>

lemma tag_create_Some:
  "tag_create n db = Some (t, db1) \<Longrightarrow>
     storable n \<and> n \<notin> set (map tag_name (tags db))
     \<and> t = \<lparr>tag_id = uuid_counter db, tag_name = n\<rparr>
     \<and> db1 = db\<lparr>tags := tags db @ [t], uuid_counter := Suc (uuid_counter db)\<rparr>"
  by (auto simp: tag_create_def Let_def split: if_splits)

lemma tag_find_None: "tag_find n db = None \<longleftrightarrow> n \<notin> set (map tag_name (tags db))"
  by (auto simp: tag_find_def find_None_iff)

lemma tag_find_Some: "tag_find n db = Some t \<Longrightarrow> t \<in> set (tags db) \<and> tag_name t = n"
  by (auto simp: tag_find_def find_Some_iff)

lemma tag_upsert_cases:
  "tag_upsert n db = Some (t, db1) \<Longrightarrow>
     storable n
     \<and> ((tag_find n db = Some t \<and> db1 = db)
         \<or> (tag_find n db = None \<and> tag_create n db = Some (t, db1)))"
  by (auto simp: tag_upsert_def split: if_splits option.splits)

lemma tag_upsert_storable:
  "storable n \<Longrightarrow> \<exists>t db1. tag_upsert n db = Some (t, db1)"
  by (auto simp: tag_upsert_def tag_create_def tag_find_None Let_def split: option.splits)

lemma tag_upsert_frame:
  assumes "tag_upsert n db = Some (t, db1)"
  shows "links db1 = links db" "link_to_tag db1 = link_to_tag db" "clock db1 = clock db"
    "t \<in> set (tags db1)" "tag_name t = n" "set (tags db) \<subseteq> set (tags db1)"
  using tag_upsert_cases[OF assms] tag_find_Some[of n db t]
  by (auto dest!: tag_create_Some)

lemma insert_link_to_tag_frame:
  "insert_link_to_tag l t db = Some db' \<Longrightarrow>
     links db' = links db \<and> tags db' = tags db \<and> uuid_counter db' = uuid_counter db
       \<and> clock db' = clock db"
  by (auto simp: insert_link_to_tag_def split: if_splits)

lemma insert_link_to_tag_succeeds:
  "l \<in> set (map link_id (links db)) \<Longrightarrow> t \<in> set (tags db)
     \<Longrightarrow> \<exists>db'. insert_link_to_tag l (tag_id t) db = Some db'"
  by (auto simp: insert_link_to_tag_def)

lemma createTagsForLink_links [simp]: "links (snd (createTagsForLink l names db)) = links db"
proof (induction names arbitrary: db)
  case Nil
  then show ?case by simp
next
  case (Cons n names)
  show ?case
  proof (cases "tag_upsert n db")
    case None
    then show ?thesis by simp
  next
    case (Some r)
    obtain t db1 where u: "tag_upsert n db = Some (t, db1)" using Some by (cases r) simp
    have l1: "links db1 = links db" using tag_upsert_frame(1)[OF u] .
    show ?thesis
    proof (cases "insert_link_to_tag l (tag_id t) db1")
      case None
      then show ?thesis using u l1 by simp
    next
      case (Some db2)
      then have "links db2 = links db1" by (simp add: insert_link_to_tag_frame)
      then show ?thesis using u l1 Some Cons.IH[of db2] by simp
    qed
  qed
qed

lemma createTagsForLink_succeeds:
  "l \<in> set (map link_id (links db)) \<Longrightarrow> \<forall>n \<in> set names. storable n
     \<Longrightarrow> fst (createTagsForLink l names db) = Inr ()"
proof (induction names arbitrary: db)
  case Nil
  then show ?case by simp
next
  case (Cons n names)
  from Cons.prems(2) obtain t db1 where u: "tag_upsert n db = Some (t, db1)"
    using tag_upsert_storable[of n db] by auto
  have l1: "links db1 = links db" and t1: "t \<in> set (tags db1)"
    using tag_upsert_frame[OF u] by simp_all
  from Cons.prems(1) l1 t1 obtain db2 where i: "insert_link_to_tag l (tag_id t) db1 = Some db2"
    using insert_link_to_tag_succeeds[of l db1 t] by auto
  then have "links db2 = links db" using l1 by (simp add: insert_link_to_tag_frame)
  then show ?case using u i Cons.IH[of db2] Cons.prems by simp
qed

lemma newest_in: "newest ls = Some m \<Longrightarrow> m \<in> set ls"
  by (induction ls arbitrary: m) (auto split: option.splits if_splits)

lemma newest_None: "newest ls = None \<longleftrightarrow> ls = []"
  by (induction ls) (auto split: option.splits)

lemma findFirst_link_in:
  "findFirst_link u owner db = Some m
     \<Longrightarrow> m \<in> set (links db) \<and> url m = u \<and> user_id m = owner"
  by (auto simp: findFirst_link_def dest: newest_in)

lemma insert_link_Some:
  "insert_link u t i d s owner vec db = Some db1 \<longleftrightarrow>
     storable u \<and> storable_opt t \<and> storable_opt i \<and> storable d \<and> storable s
     \<and> length vec = 1536
     \<and> db1 = db\<lparr>links := links db @
            [\<lparr>link_id = uuid_counter db, url = u, title = t, image_url = i, domain = Some d,
              summary = Some s, embedding = Some vec, created_at = clock db,
              updated_at = clock db, user_id = owner\<rparr>],
        uuid_counter := Suc (uuid_counter db),
        clock := Suc (clock db)\<rparr>"
  by (auto simp: insert_link_def)

lemma findFirst_after_insert:
  assumes "insert_link u t i d s owner vec db = Some db1"
  shows "\<exists>m. findFirst_link u owner db1 = Some m \<and> m \<in> set (links db1)"
proof -
  have "filter (\<lambda>l. url l = u \<and> user_id l = owner) (links db1) \<noteq> []"
    using assms by (simp add: insert_link_Some)
  then obtain m where "findFirst_link u owner db1 = Some m"
    unfolding findFirst_link_def using newest_None by (metis option.exhaust)
  then show ?thesis using findFirst_link_in by blast
qed

section \<open>Ingestion and the embedding\<close>

lemma createLink_valid:
  assumes md: "url_metadata env u = (t, i, d)"
    and gen: "generateEmbedding env (extractUrlContent env u) = Inr emb"
  shows "createLink env (Some usr) (Valid u) db =
     (case to_vector emb of
        None \<Rightarrow> (Response 500 ''Error processing link'' None, db)
      | Some vec \<Rightarrow>
     (case insert_link u t i d (generateSummary env (extractUrlContent env u))
             (user_ident usr) vec db of
        None \<Rightarrow> (Response 500 ''Error processing link'' None, db)
      | Some db1 \<Rightarrow>
     (case findFirst_link u (user_ident usr) db1 of
        None \<Rightarrow> (Response 500 ''Failed to create link'' None, db1)
      | Some newLink \<Rightarrow>
     (case createTagsForLink (link_id newLink) (generateTags env (extractUrlContent env u)) db1 of
        (Inl e, db2) \<Rightarrow> (Response 500 ''Error processing link'' None, db2)
      | (Inr _, db2) \<Rightarrow>
          (Response 201 ''Link created successfully''
             (Some (formatLinkResponse newLink (select_embedding (link_id newLink) db2)
                      (getTagsForLink (link_id newLink) db2))),
           db2)))))"
proof -
  from gen have "length emb = 1536" by (simp add: generateEmbedding_Inr)
  then show ?thesis using md gen by (simp add: createLink_def Let_def)
qed

lemma createLink_success:
  assumes gen: "generateEmbedding env (extractUrlContent env u) = Inr emb"
    and vec: "to_vector emb = Some vec"
    and ins: "insert_link u (fst (url_metadata env u)) (fst (snd (url_metadata env u)))
                (snd (snd (url_metadata env u))) (generateSummary env (extractUrlContent env u))
                (user_ident usr) vec db = Some db1"
  shows "\<exists>row r db'. createLink env (Some usr) (Valid u) db = (r, db') \<and> status r = 201
           \<and> length vec = 1536
           \<and> links db' = links db @ [row] \<and> url row = u \<and> user_id row = user_ident usr
           \<and> embedding row = Some vec"
proof -
  obtain t i d where md: "url_metadata env u = (t, i, d)" by (cases "url_metadata env u")
  let ?s = "generateSummary env (extractUrlContent env u)"
  have ins': "insert_link u t i d ?s (user_ident usr) vec db = Some db1" using ins md by simp
  obtain m where m: "findFirst_link u (user_ident usr) db1 = Some m" "m \<in> set (links db1)"
    using findFirst_after_insert[OF ins'] by blast
  let ?tg = "createTagsForLink (link_id m) (generateTags env (extractUrlContent env u)) db1"
  have ok: "fst ?tg = Inr ()"
    using m(2) generateTags_storable by (intro createTagsForLink_succeeds) simp_all
  have ls: "links (snd ?tg) = links db1" by simp
  obtain db2 where tg: "?tg = (Inr (), db2)" using ok by (cases ?tg) auto
  have run: "createLink env (Some usr) (Valid u) db =
          (Response 201 ''Link created successfully''
             (Some (formatLinkResponse m (select_embedding (link_id m) db2)
                      (getTagsForLink (link_id m) db2))), db2)"
    unfolding createLink_valid[OF md gen] using vec ins' m(1) tg by simp
  have "links db2 = links db1" using ls tg by simp
  then have rows: "links db2 = links db @ [last (links db1)]"
    using ins' by (simp add: insert_link_Some)
  have row: "url (last (links db1)) = u" "user_id (last (links db1)) = user_ident usr"
     "embedding (last (links db1)) = Some vec" "length vec = 1536"
    using ins' by (simp_all add: insert_link_Some)
  show ?thesis using run rows row by auto
qed

lemma createLink_refused:
  assumes gen: "generateEmbedding env (extractUrlContent env u) = Inr emb"
    and no: "\<forall>vec. to_vector emb = Some vec \<longrightarrow>
               insert_link u (fst (url_metadata env u)) (fst (snd (url_metadata env u)))
                (snd (snd (url_metadata env u))) (generateSummary env (extractUrlContent env u))
                (user_ident usr) vec db = None"
  shows "createLink env (Some usr) (Valid u) db = (Response 500 ''Error processing link'' None, db)"
proof -
  obtain t i d where md: "url_metadata env u = (t, i, d)" by (cases "url_metadata env u")
  show ?thesis
    unfolding createLink_valid[OF md gen] using no md by (simp split: option.splits)
qed

lemma createLink_embedding_failure:
  assumes "generateEmbedding env (extractUrlContent env u) = Inl e"
  shows "createLink env (Some usr) (Valid u) db = (Response 500 ''Error processing link'' None, db)"
  using assms by (simp add: createLink_def Let_def split: prod.splits)


lemma createLink_201_stored:
  assumes "status (fst (createLink env req_user validation db)) = 201"
  shows "\<exists>row vec u emb. validation = Valid u
           \<and> generateEmbedding env (extractUrlContent env u) = Inr emb
           \<and> to_vector emb = Some vec
           \<and> links (snd (createLink env req_user validation db)) = links db @ [row]
           \<and> embedding row = Some vec \<and> length vec = 1536"
proof -
  from assms obtain usr where usr: "req_user = Some usr"
    by (cases req_user) (simp_all add: createLink_def)
  from assms usr obtain u where u: "validation = Valid u"
    by (cases validation) (simp_all add: createLink_def)
  show ?thesis
  proof (cases "generateEmbedding env (extractUrlContent env u)")
    case (Inl e)
    then show ?thesis using assms usr u by (simp add: createLink_embedding_failure)
  next
    case (Inr emb)
    show ?thesis
    proof (cases "\<exists>vec db1. to_vector emb = Some vec
                \<and> insert_link u (fst (url_metadata env u)) (fst (snd (url_metadata env u)))
                (snd (snd (url_metadata env u))) (generateSummary env (extractUrlContent env u))
                (user_ident usr) vec db = Some db1")
      case True
      then obtain vec db1 where v: "to_vector emb = Some vec"
        "insert_link u (fst (url_metadata env u)) (fst (snd (url_metadata env u)))
                (snd (snd (url_metadata env u))) (generateSummary env (extractUrlContent env u))
                (user_ident usr) vec db = Some db1" by blast
      from createLink_success[OF Inr v] show ?thesis using usr u Inr v(1) by auto
    next
      case False
      then have "\<forall>vec. to_vector emb = Some vec \<longrightarrow>
               insert_link u (fst (url_metadata env u)) (fst (snd (url_metadata env u)))
                (snd (snd (url_metadata env u))) (generateSummary env (extractUrlContent env u))
                (user_ident usr) vec db = None"
        by auto
      from createLink_refused[OF Inr this] show ?thesis using assms usr u by simp
    qed
  qed
qed



text \<open>
  A vector that passes the checks of generateEmbedding and that the cast to \<open>vector\<close>
  refuses: its first component is \<open>1e39\<close>, a finite double outside the range of a
  four-byte float. createLink answers 500 and writes nothing.
\<close>

lemma createLink_out_of_range_refused:
  "generateEmbedding
       (sample_services (EmbeddingsResolved (Array (Num (10 ^ 39) # replicate 1535 (Num 0)))))
       text
     = Inr (Num (10 ^ 39) # replicate 1535 (Num 0))
   \<and> createLink
       (sample_services (EmbeddingsResolved (Array (Num (10 ^ 39) # replicate 1535 (Num 0)))))
       (Some sample_user) (Valid ''https://example.com/a'') initial_database
     = (Response 500 ''Error processing link'' None, initial_database)"
proof -
  let ?emb = "Num (10 ^ 39) # replicate 1535 (Num 0)"
  let ?env = "sample_services (EmbeddingsResolved (Array ?emb))"
  have gen: "generateEmbedding ?env t = Inr ?emb" for t
    by (simp add: generateEmbedding_Inr sample_services_def list_all_iff)
  have "\<not> float4_in_range (10 ^ 39)"
    by (simp add: float4_in_range_def)
  then have "to_vector ?emb = None"
    by (simp add: to_vector_def)
  then have "createLink ?env (Some sample_user) (Valid ''https://example.com/a'') initial_database
     = (Response 500 ''Error processing link'' None, initial_database)"
    by (intro createLink_refused[OF gen]) simp
  with gen show ?thesis by blast
qed


text \<open>
  Claim C2. Every vector that generateEmbedding returns has length 1536 and only finite
  numbers as components; it is the array of the provider's response. Whenever the response
  is not such an array, generateEmbedding throws. A createLink that answers 201 has added
  one row, whose embedding has length 1536 and holds the numbers of the vector that
  generateEmbedding returned for the content of the page.
\<close>

theorem generateEmbedding_returns_only_valid_vectors:
  "(\<forall>v. generateEmbedding env text = Inr v \<longrightarrow>
        length v = 1536 \<and> (\<forall>x \<in> set v. Number_isFinite x)
        \<and> embeddings_create env (if length text > 8000 then take 8000 text else text)
            = EmbeddingsResolved (Array v))
   \<and> ((\<nexists>v. embeddings_create env (if length text > 8000 then take 8000 text else text)
              = EmbeddingsResolved (Array v)
            \<and> length v = 1536 \<and> (\<forall>x \<in> set v. Number_isFinite x))
        \<longrightarrow> (\<exists>e. generateEmbedding env text = Inl e))
   \<and> (\<forall>req_user validation db.
        status (fst (createLink env req_user validation db)) = 201 \<longrightarrow>
        (\<exists>row vec u emb. validation = Valid u
           \<and> generateEmbedding env (extractUrlContent env u) = Inr emb
           \<and> to_vector emb = Some vec
           \<and> links (snd (createLink env req_user validation db)) = links db @ [row]
           \<and> embedding row = Some vec \<and> length vec = 1536))"
proof (intro conjI allI impI)
  fix v assume "generateEmbedding env text = Inr v"
  then show "length v = 1536" "\<forall>x \<in> set v. Number_isFinite x"
    "embeddings_create env (if length text > 8000 then take 8000 text else text)
       = EmbeddingsResolved (Array v)"
    by (simp_all add: generateEmbedding_Inr list_all_iff)
next
  assume none: "\<nexists>v. embeddings_create env (if length text > 8000 then take 8000 text else text)
              = EmbeddingsResolved (Array v)
            \<and> length v = 1536 \<and> (\<forall>x \<in> set v. Number_isFinite x)"
  show "\<exists>e. generateEmbedding env text = Inl e"
  proof (cases "generateEmbedding env text")
    case (Inl e)
    then show ?thesis by blast
  next
    case (Inr v)
    then show ?thesis using none by (simp add: generateEmbedding_Inr list_all_iff)
  qed
next
  fix req_user validation db
  assume "status (fst (createLink env req_user validation db)) = 201"
  then show "\<exists>row vec u emb. validation = Valid u
           \<and> generateEmbedding env (extractUrlContent env u) = Inr emb
           \<and> to_vector emb = Some vec
           \<and> links (snd (createLink env req_user validation db)) = links db @ [row]
           \<and> embedding row = Some vec \<and> length vec = 1536"
    by (rule createLink_201_stored)
qed

theorem generateEmbedding_returns_only_valid_vectors_witness:
  "generateEmbedding (sample_services (EmbeddingsResolved (Array unit_embedding))) ''saved page''
     = Inr unit_embedding
   \<and> length unit_embedding = 1536 \<and> list_all Number_isFinite unit_embedding
   \<and> (\<exists>e. generateEmbedding (sample_services (EmbeddingsResolved (Array [Num 1, NaN]))) ''saved page''
            = Inl e)"
proof -
  have ok: "generateEmbedding (sample_services (EmbeddingsResolved (Array unit_embedding))) ''saved page''
     = Inr unit_embedding"
    by (rule sample_generateEmbedding)
  have bad: "\<nexists>v. embeddings_create (sample_services (EmbeddingsResolved (Array [Num 1, NaN])))
                  (if length ''saved page'' > 8000 then take 8000 ''saved page'' else ''saved page'')
              = EmbeddingsResolved (Array v)
            \<and> length v = 1536 \<and> (\<forall>x \<in> set v. Number_isFinite x)"
    by (auto simp: sample_services_def)
  show ?thesis
    using ok bad
      generateEmbedding_returns_only_valid_vectors
        [of "sample_services (EmbeddingsResolved (Array unit_embedding))" "''saved page''"]
      generateEmbedding_returns_only_valid_vectors
        [of "sample_services (EmbeddingsResolved (Array [Num 1, NaN]))" "''saved page''"]
    unfolding list_all_iff by blast
qed




section \<open>Content extraction\<close>

lemma limit_length_bound: "length (limit_length c) \<le> 8003"
  by (simp add: limit_length_def maxLength_def)

lemma limit_length_empty: "limit_length c = [] \<longleftrightarrow> c = []"
  by (auto simp: limit_length_def maxLength_def)

text \<open>
  Claim C7. extractUrlContent returns a non-empty string for every URL. When the fetch or
  the parser throws, the result is the marker that starts with "Failed to extract content
  from". When the page is fetched, the cleaned text is cut at 8000 characters, with "..."
  appended to a cut text, so a returned text has at most 8003 characters and agrees with
  the cleaned text on the first 8000; an empty cleaned text gives the marker "Could not
  extract meaningful content from" with the URL.
\<close>

theorem extractUrlContent_nonempty_and_truncated:
  "extractUrlContent env u \<noteq> []
   \<and> (\<forall>msg. http_get env (if startsWith u ''http'' then u else ''https://'' @ u)
               = FetchFailed msg \<longrightarrow>
         extractUrlContent env u
           = ''Failed to extract content from '' @ u @ ''. Error: '' @
               (case msg of Some m \<Rightarrow> m | None \<Rightarrow> ''Unknown error''))
   \<and> (\<forall>p. http_get env (if startsWith u ''http'' then u else ''https://'' @ u)
             = Fetched p \<longrightarrow>
         (if clean_up (main_content p) = []
          then extractUrlContent env u = ''Could not extract meaningful content from '' @ u
          else extractUrlContent env u
                 = (if length (clean_up (main_content p)) > 8000
                    then take 8000 (clean_up (main_content p)) @ ''...''
                    else clean_up (main_content p))
               \<and> length (extractUrlContent env u) \<le> 8003
               \<and> take 8000 (extractUrlContent env u) = take 8000 (clean_up (main_content p))))"
proof (intro conjI allI impI)
  show "extractUrlContent env u \<noteq> []"
    by (simp add: extractUrlContent_def Let_def split: fetch_outcome.splits)
next
  fix msg
  assume "http_get env (if startsWith u ''http'' then u else ''https://'' @ u) = FetchFailed msg"
  then show "extractUrlContent env u
           = ''Failed to extract content from '' @ u @ ''. Error: '' @
               (case msg of Some m \<Rightarrow> m | None \<Rightarrow> ''Unknown error'')"
    by (simp add: extractUrlContent_def Let_def)
next
  fix p
  assume f: "http_get env (if startsWith u ''http'' then u else ''https://'' @ u) = Fetched p"
  let ?c = "clean_up (main_content p)"
  show "if ?c = []
        then extractUrlContent env u = ''Could not extract meaningful content from '' @ u
        else extractUrlContent env u
               = (if length ?c > 8000 then take 8000 ?c @ ''...'' else ?c)
             \<and> length (extractUrlContent env u) \<le> 8003
             \<and> take 8000 (extractUrlContent env u) = take 8000 ?c"
  proof (cases "?c = []")
    case True
    then show ?thesis using f
      by (simp add: extractUrlContent_def Let_def limit_length_def)
  next
    case False
    then have r: "extractUrlContent env u = limit_length ?c" using f
      by (simp add: extractUrlContent_def Let_def limit_length_empty)
    show ?thesis using False r limit_length_bound[of ?c]
      by (auto simp: limit_length_def maxLength_def)
  qed
qed

lemma article_page_clean: "clean_up (main_content article_page) = ''Saved pages stay''"
  by code_simp

theorem extractUrlContent_nonempty_and_truncated_witness:
  "http_get (sample_services (EmbeddingsRejected None)) ''https://example.com/a''
     = FetchFailed (Some ''timeout of 8000ms exceeded'')
   \<and> extractUrlContent (sample_services (EmbeddingsRejected None)) ''https://example.com/a''
     = ''Failed to extract content from https://example.com/a. Error: timeout of 8000ms exceeded''
   \<and> http_get article_services ''https://example.com/a'' = Fetched article_page
   \<and> extractUrlContent article_services ''https://example.com/a'' = ''Saved pages stay''"
proof -
  have a: "(if startsWith ''https://example.com/a'' ''http'' then ''https://example.com/a''
            else ''https://'' @ ''https://example.com/a'') = ''https://example.com/a''"
    by (simp add: startsWith_def)
  have f: "http_get (sample_services (EmbeddingsRejected None)) ''https://example.com/a''
            = FetchFailed (Some ''timeout of 8000ms exceeded'')"
    by (simp add: sample_services_def)
  have g: "http_get article_services ''https://example.com/a'' = Fetched article_page"
    by (simp add: article_services_def)
  show ?thesis
    using extractUrlContent_nonempty_and_truncated
            [of "sample_services (EmbeddingsRejected None)" "''https://example.com/a''"]
          extractUrlContent_nonempty_and_truncated
            [of article_services "''https://example.com/a''"]
          f g article_page_clean
    unfolding a by simp
qed


section \<open>Answer generation\<close>

lemma or_default_nonempty: "d \<noteq> [] \<Longrightarrow> or_default v d \<noteq> []"
  by (simp add: or_default_def split: option.splits)

lemma select_matches_Nil [simp]: "select_matches distance q th uid [] = []"
  by simp

text \<open>
  Claim C8. generateChatResponse always returns a non-empty string; when the generation
  call fails it returns the fixed apology. When the embedding of the query succeeds and
  match_links returns no row, chatWithLinks answers with success, the answer that
  generateChatResponse gives for no links, and an empty list of links.
\<close>

theorem chat_answers_without_matches:
  "generateChatResponse env query relevantLinks \<noteq> []
   \<and> (chat_create env
         (AnswerFromLinks query
            (map (\<lambda>link. (or_default (rl_title link) ''Untitled'', rl_url link,
                          or_default (rl_summary link) ''No summary available'')) relevantLinks))
        = ChatRejected \<longrightarrow>
       generateChatResponse env query relevantLinks
         = ''Sorry, I encountered an error while generating a response. Please try again later.'')
   \<and> (\<forall>emb q. generateEmbedding env (''This is about: '' @ query) = Inr emb
          \<and> to_vector emb = Some q
          \<and> match_links distance q 0 5 (user_ident usr) db = Some [] \<longrightarrow>
        chatWithLinks env distance (Some usr) (Valid query) db
          = ChatSuccess (generateChatResponse env query []) []
        \<and> response_text (chatWithLinks env distance (Some usr) (Valid query) db) \<noteq> [])"
proof (intro conjI allI impI)
  show "generateChatResponse env query relevantLinks \<noteq> []"
    by (simp add: generateChatResponse_def Let_def or_default_nonempty split: chat_outcome.splits)
next
  assume "chat_create env
         (AnswerFromLinks query
            (map (\<lambda>link. (or_default (rl_title link) ''Untitled'', rl_url link,
                          or_default (rl_summary link) ''No summary available'')) relevantLinks))
        = ChatRejected"
  then show "generateChatResponse env query relevantLinks
         = ''Sorry, I encountered an error while generating a response. Please try again later.''"
    by (simp add: generateChatResponse_def Let_def)
next
  fix emb q
  assume h: "generateEmbedding env (''This is about: '' @ query) = Inr emb
          \<and> to_vector emb = Some q
          \<and> match_links distance q 0 5 (user_ident usr) db = Some []"
  then show run: "chatWithLinks env distance (Some usr) (Valid query) db
          = ChatSuccess (generateChatResponse env query []) []"
    by (simp add: chatWithLinks_def Let_def)
  have "generateChatResponse env query [] \<noteq> []"
    by (simp add: generateChatResponse_def Let_def or_default_nonempty split: chat_outcome.splits)
  then show "response_text (chatWithLinks env distance (Some usr) (Valid query) db) \<noteq> []"
    using run by simp
qed

theorem chat_answers_without_matches_witness:
  "links initial_database = []
   \<and> chatWithLinks (sample_services (EmbeddingsResolved (Array unit_embedding))) cosine_distance
        (Some sample_user) (Valid ''what did I save?'') initial_database
      = ChatSuccess
          ''Sorry, I encountered an error while generating a response. Please try again later.'' []"
proof -
  let ?env = "sample_services (EmbeddingsResolved (Array unit_embedding))"
  have g: "generateEmbedding ?env (''This is about: '' @ ''what did I save?'') = Inr unit_embedding"
    by (rule sample_generateEmbedding)
  obtain q where q: "to_vector unit_embedding = Some q"
    using to_vector_unit_embedding by blast
  have e: "links initial_database = []" by (simp add: initial_database_def)
  then have m: "match_links cosine_distance q 0 5 (user_ident sample_user) initial_database = Some []"
    by (simp add: match_links_def)
  have r: "chat_create ?env (AnswerFromLinks ''what did I save?''
            (map (\<lambda>link. (or_default (rl_title link) ''Untitled'', rl_url link,
                          or_default (rl_summary link) ''No summary available'')) []))
           = ChatRejected"
    by (simp add: sample_services_def)
  show ?thesis
    using chat_answers_without_matches
            [of ?env "''what did I save?''" "[]" cosine_distance sample_user initial_database]
          g q m r e
    by simp
qed


section \<open>The frame of updateLink\<close>

lemma createTagsForLink_other_connections:
  "filter (\<lambda>lt. fst lt \<noteq> i) (link_to_tag (snd (createTagsForLink i names db)))
     = filter (\<lambda>lt. fst lt \<noteq> i) (link_to_tag db)"
proof (induction names arbitrary: db)
  case Nil
  then show ?case by simp
next
  case (Cons n names)
  show ?case
  proof (cases "tag_upsert n db")
    case None
    then show ?thesis by simp
  next
    case (Some r)
    obtain t db1 where u: "tag_upsert n db = Some (t, db1)" using Some by (cases r) simp
    have c1: "link_to_tag db1 = link_to_tag db" using tag_upsert_frame(2)[OF u] .
    show ?thesis
    proof (cases "insert_link_to_tag i (tag_id t) db1")
      case None
      then show ?thesis using u c1 by simp
    next
      case (Some db2)
      then have "filter (\<lambda>lt. fst lt \<noteq> i) (link_to_tag db2)
                   = filter (\<lambda>lt. fst lt \<noteq> i) (link_to_tag db1)"
        by (auto simp: insert_link_to_tag_def split: if_splits)
      then show ?thesis using u c1 Some Cons.IH[of db2] by simp
    qed
  qed
qed

lemma update_link_Some:
  "update_link i t s db = Some db1 \<longleftrightarrow>
     storable_opt t \<and> storable_opt s
     \<and> db1 = db\<lparr>links := map (\<lambda>l. if link_id l = i
                           then l\<lparr>title := (case t of None \<Rightarrow> title l | Some v \<Rightarrow> Some v),
                                  summary := (case s of None \<Rightarrow> summary l | Some v \<Rightarrow> Some v),
                                  updated_at := clock db\<rparr>
                           else l) (links db),
        clock := Suc (clock db)\<rparr>"
  by (auto simp: update_link_def)

lemma update_link_frame:
  "update_link i t s db = Some db1 \<Longrightarrow>
   list_all2 (\<lambda>l l'. link_id l' = link_id l \<and> url l' = url l \<and> image_url l' = image_url l
                \<and> domain l' = domain l \<and> embedding l' = embedding l \<and> user_id l' = user_id l
                \<and> created_at l' = created_at l \<and> (link_id l \<noteq> i \<longrightarrow> l' = l))
     (links db) (links db1)"
  by (simp add: update_link_Some list_all2_map2 list_all2_same)

lemma updateLink_store:
  "snd (updateLink req_user i validation db) = db
   \<or> (\<exists>b db1. validation = Valid b
        \<and> update_link i (new_title b) (new_summary b) db = Some db1
        \<and> (snd (updateLink req_user i validation db) = db1
           \<or> (\<exists>tgs. new_tags b = Some tgs
                \<and> snd (updateLink req_user i validation db)
                    = snd (createTagsForLink i tgs (deleteTagsForLink i db1)))))"
proof (cases req_user)
  case None
  then show ?thesis by (simp add: updateLink_def)
next
  case (Some usr)
  show ?thesis
  proof (cases validation)
    case Invalid
    then show ?thesis using Some by (simp add: updateLink_def)
  next
    case (Valid b)
    show ?thesis
    proof (cases "findUnique_link i (user_ident usr) db")
      case None
      then show ?thesis using Some Valid by (simp add: updateLink_def)
    next
      case found: (Some existing)
      show ?thesis
      proof (cases "update_link i (new_title b) (new_summary b) db")
        case None
        then show ?thesis using Some Valid found by (simp add: updateLink_def)
      next
        case wrote: (Some db1)
        show ?thesis
        proof (cases "find (\<lambda>l. link_id l = i) (links db1)")
          case None
          then show ?thesis using Some Valid found wrote by (simp add: updateLink_def Let_def)
        next
          case upd: (Some updatedLink)
          show ?thesis
          proof (cases "new_tags b")
            case None
            then show ?thesis using Some Valid found wrote upd by (simp add: updateLink_def Let_def)
          next
            case tg: (Some tgs)
            obtain res db2 where r: "createTagsForLink i tgs (deleteTagsForLink i db1) = (res, db2)"
              by (cases "createTagsForLink i tgs (deleteTagsForLink i db1)")
            then have "snd (updateLink req_user i validation db) = db2"
              using Some Valid found wrote upd tg
              by (cases res) (simp_all add: updateLink_def Let_def)
            then show ?thesis using Valid tg r wrote by simp
          qed
        qed
      qed
    qed
  qed
qed

lemma updateLink_other_connections:
  "filter (\<lambda>lt. fst lt \<noteq> i) (link_to_tag (snd (updateLink req_user i validation db)))
     = filter (\<lambda>lt. fst lt \<noteq> i) (link_to_tag db)"
proof -
  have d: "\<And>tgs db1. filter (\<lambda>lt. fst lt \<noteq> i)
              (link_to_tag (snd (createTagsForLink i tgs (deleteTagsForLink i db1))))
            = filter (\<lambda>lt. fst lt \<noteq> i) (link_to_tag db1)"
    by (simp add: createTagsForLink_other_connections deleteTagsForLink_def)
  have u: "\<And>t s db1. update_link i t s db = Some db1 \<Longrightarrow> link_to_tag db1 = link_to_tag db"
    by (simp add: update_link_Some)
  show ?thesis
    using updateLink_store[of req_user i validation db] by (auto simp: d u)
qed

lemma updateLink_links:
  "links (snd (updateLink req_user i validation db)) = links db
   \<or> (\<exists>t s db1. update_link i t s db = Some db1
         \<and> links (snd (updateLink req_user i validation db)) = links db1)"
proof -
  have d: "\<And>tgs db1. links (snd (createTagsForLink i tgs (deleteTagsForLink i db1))) = links db1"
    by (simp add: deleteTagsForLink_def)
  from updateLink_store[of req_user i validation db] show ?thesis
    by (metis d)
qed

text \<open>
  Claim C10. For every call of updateLink, the links table keeps its rows in place, and every
  row keeps its identifier, url, image, domain, embedding, owner and creation time; a row
  other than the addressed one is unchanged altogether, and so are the tag connections of
  every other link. updateLink takes no provider among its arguments: no embedding is
  computed.
\<close>

theorem updateLink_changes_only_title_summary_tags:
  "list_all2 (\<lambda>l l'. link_id l' = link_id l \<and> url l' = url l \<and> image_url l' = image_url l
                \<and> domain l' = domain l \<and> embedding l' = embedding l \<and> user_id l' = user_id l
                \<and> created_at l' = created_at l \<and> (link_id l \<noteq> i \<longrightarrow> l' = l))
     (links db) (links (snd (updateLink req_user i validation db)))
   \<and> filter (\<lambda>lt. fst lt \<noteq> i) (link_to_tag (snd (updateLink req_user i validation db)))
       = filter (\<lambda>lt. fst lt \<noteq> i) (link_to_tag db)"
proof
  show "list_all2 (\<lambda>l l'. link_id l' = link_id l \<and> url l' = url l \<and> image_url l' = image_url l
                \<and> domain l' = domain l \<and> embedding l' = embedding l \<and> user_id l' = user_id l
                \<and> created_at l' = created_at l \<and> (link_id l \<noteq> i \<longrightarrow> l' = l))
     (links db) (links (snd (updateLink req_user i validation db)))"
    using updateLink_links[of req_user i validation db]
  proof
    assume "links (snd (updateLink req_user i validation db)) = links db"
    then show ?thesis by (simp add: list_all2_same)
  next
    assume "\<exists>t s db1. update_link i t s db = Some db1
         \<and> links (snd (updateLink req_user i validation db)) = links db1"
    then show ?thesis using update_link_frame by auto
  qed
  show "filter (\<lambda>lt. fst lt \<noteq> i) (link_to_tag (snd (updateLink req_user i validation db)))
       = filter (\<lambda>lt. fst lt \<noteq> i) (link_to_tag db)"
    by (rule updateLink_other_connections)
qed

theorem updateLink_changes_only_title_summary_tags_witness:
  "findUnique_link 6 (user_ident sample_user) one_link_database = Some stored_link
   \<and> map title (links (snd (updateLink (Some sample_user) 6
         (Valid \<lparr>new_title = Some ''Renamed'', new_summary = None, new_tags = None\<rparr>)
         one_link_database))) = [Some ''Renamed'']
   \<and> map embedding (links (snd (updateLink (Some sample_user) 6
         (Valid \<lparr>new_title = Some ''Renamed'', new_summary = None, new_tags = None\<rparr>)
         one_link_database))) = [embedding stored_link]
   \<and> map created_at (links (snd (updateLink (Some sample_user) 6
         (Valid \<lparr>new_title = Some ''Renamed'', new_summary = None, new_tags = None\<rparr>)
         one_link_database))) = [created_at stored_link]"
proof -
  let ?body = "\<lparr>new_title = Some ''Renamed'', new_summary = None, new_tags = None\<rparr>"
  let ?db' = "snd (updateLink (Some sample_user) 6 (Valid ?body) one_link_database)"
  have f: "findUnique_link 6 (user_ident sample_user) one_link_database = Some stored_link"
    by (simp add: findUnique_link_def one_link_database_def stored_link_def sample_user_def)
  have l: "links one_link_database = [stored_link]"
    by (simp add: one_link_database_def)
  obtain db1 where w: "update_link 6 (Some ''Renamed'') None one_link_database = Some db1"
    by (simp add: update_link_Some storable_opt_def storable_def)
  have u: "links db1
             = [stored_link\<lparr>title := Some ''Renamed'', updated_at := clock one_link_database\<rparr>]"
    using w by (simp add: update_link_Some l) (simp add: stored_link_def)
  have "?db' = db1"
    using f u w by (simp add: updateLink_def Let_def stored_link_def)
  then have t: "map title (links ?db') = [Some ''Renamed'']"
    using u by simp
  from updateLink_changes_only_title_summary_tags
         [of 6 one_link_database "Some sample_user" "Valid ?body"]
  have "list_all2 (\<lambda>l l'. link_id l' = link_id l \<and> url l' = url l \<and> image_url l' = image_url l
                \<and> domain l' = domain l \<and> embedding l' = embedding l \<and> user_id l' = user_id l
                \<and> created_at l' = created_at l \<and> (link_id l \<noteq> 6 \<longrightarrow> l' = l))
          [stored_link] (links ?db')"
    unfolding l by simp
  then have "map embedding (links ?db') = [embedding stored_link]"
    and "map created_at (links ?db') = [created_at stored_link]"
    by (auto simp: list_all2_Cons1)
  then show ?thesis using f t by simp
qed


section \<open>Vector search\<close>

lemma set_insert_desc: "set (insert_desc r xs) = insert r (set xs)"
  by (induction xs) auto

lemma length_insert_desc: "length (insert_desc r xs) = Suc (length xs)"
  by (induction xs) auto


lemma sorted_insert_desc:
  "sorted_wrt (\<lambda>a b. similarity b \<le> similarity a) xs
     \<Longrightarrow> sorted_wrt (\<lambda>a b. similarity b \<le> similarity a) (insert_desc r xs)"
  by (induction xs) (auto simp: set_insert_desc)

lemma set_order_by [simp]: "set (order_by_similarity_desc xs) = set xs"
  by (induction xs) (auto simp: set_insert_desc)

lemma length_order_by [simp]: "length (order_by_similarity_desc xs) = length xs"
  by (induction xs) (auto simp: length_insert_desc)


lemma sorted_order_by:
  "sorted_wrt (\<lambda>a b. similarity b \<le> similarity a) (order_by_similarity_desc xs)"
  by (induction xs) (auto simp: sorted_insert_desc)

lemma sorted_wrt_take_desc:
  "sorted_wrt P xs \<Longrightarrow> sorted_wrt P (take n xs)"
proof (induction xs arbitrary: n)
  case Nil
  then show ?case by simp
next
  case (Cons x xs)
  show ?case
  proof (cases n)
    case 0
    then show ?thesis by simp
  next
    case (Suc k)
    have "set (take k xs) \<subseteq> set xs" by (rule set_take_subset)
    then show ?thesis using Cons Suc by auto
  qed
qed

lemma select_matches_sound:
  "r \<in> set (select_matches distance q th uid ls) \<Longrightarrow>
     th < similarity r
     \<and> (\<exists>l \<in> set ls. \<exists>e. user_id l = uid \<and> embedding l = Some e
            \<and> similarity r = 1 - distance e q
            \<and> m_id r = link_id l \<and> m_url r = url l \<and> m_title r = title l
            \<and> m_image r = image_url l \<and> m_domain r = domain l \<and> m_summary r = summary l)"
  by (induction ls) (auto split: option.splits if_splits)

lemma select_matches_ids:
  "map m_id (select_matches distance q th uid ls)
     = map link_id (filter (\<lambda>l. user_id l = uid
                              \<and> (case embedding l of None \<Rightarrow> False
                                  | Some e \<Rightarrow> th < 1 - distance e q)) ls)"
  by (induction ls) (auto split: option.splits)


lemma select_matches_created_at:
  "select_matches distance q th uid (map (\<lambda>l. l\<lparr>created_at := f l\<rparr>) ls)
     = select_matches distance q th uid ls"
  by (induction ls) (auto split: option.splits)

lemma dot_zeros:
  "dot (replicate n 0) (replicate n x) = 0" "dot (replicate n x) (replicate n 0) = 0"
  by (simp_all add: dot_def zip_replicate sum_list_replicate)

lemma dot_Cons: "dot (a # as) (b # bs) = a * b + dot as bs"
  by (simp add: dot_def)

lemma float8_arith:
  "(1::float8) - 0 = 1" "(1::float8) - 1 = 0" "(1::float8) - NaN8 = NaN8"
  "(0::float8) < 1" "\<not> (0::float8) < 0" "(0::float8) < NaN8" "F8 x < NaN8"
  "NaN8 \<noteq> (1::float8)" "(1::float8) \<noteq> NaN8" "(1::float8) \<le> 1" "(1::float8) \<le> NaN8"
  "\<not> NaN8 \<le> (1::float8)"
  by (simp_all add: zero_float8_def one_float8_def minus_float8_def less_float8_def
      less_eq_float8_def)

lemma cosine_distance_same:
  "cosine_distance (1 # replicate 1535 0) (1 # replicate 1535 0) = 0"
  by (simp add: cosine_distance_def dot_Cons dot_zeros zero_float8_def)


lemma cosine_distance_zero:
  "cosine_distance (replicate 1536 0) (1 # replicate 1535 0) = NaN8"
proof -
  have "replicate 1536 (0::real) = 0 # replicate 1535 0"
    by (simp add: replicate_Suc[symmetric] del: replicate_Suc)
  then show ?thesis by (simp add: cosine_distance_def dot_Cons dot_zeros)
qed

lemma match_links_one_link:
  "match_links cosine_distance (1 # replicate 1535 0) 0 5 7 one_link_database
     = Some [\<lparr>m_id = 6, m_url = ''https://example.com/a'', m_title = Some ''Saved'',
              m_image = None, m_domain = Some ''example.com'',
              m_summary = Some ''A page about saving pages.'', similarity = 1\<rparr>]"
  by (simp add: match_links_def one_link_database_def stored_link_def cosine_distance_same
        float8_arith)

text \<open>
  What holds of match_links for every store, in the order of the store, where NaN is above
  every number: it raises exactly when the count is negative; otherwise the rows are in
  non-increasing order, none is below the threshold in that order, there are at most as
  many as the count says, and each is the row of a link of that owner that has an
  embedding. A similarity that is a number is strictly above the threshold.
\<close>

lemma match_links_rows:
  "case match_links distance q th k uid db of
     None \<Rightarrow> k < 0
   | Some rows \<Rightarrow>
       0 \<le> k
       \<and> sorted_wrt (\<lambda>a b. similarity b \<le> similarity a) rows
       \<and> (\<forall>r \<in> set rows. th < similarity r)
       \<and> int (length rows) \<le> k
       \<and> (\<forall>r \<in> set rows. \<exists>l \<in> set (links db). \<exists>e.
             user_id l = uid \<and> embedding l = Some e \<and> similarity r = 1 - distance e q
             \<and> m_id r = link_id l \<and> m_url r = url l \<and> m_title r = title l
             \<and> m_image r = image_url l \<and> m_domain r = domain l \<and> m_summary r = summary l)"
proof (cases "k < 0")
  case True
  then show ?thesis by (simp add: match_links_def)
next
  case False
  let ?all = "order_by_similarity_desc (select_matches distance q th uid (links db))"
  let ?rows = "take (nat k) ?all"
  have m: "match_links distance q th k uid db = Some ?rows"
    using False by (simp add: match_links_def)
  have sub: "set ?rows \<subseteq> set (select_matches distance q th uid (links db))"
    using set_take_subset[of "nat k" ?all] by simp
  have s: "sorted_wrt (\<lambda>a b. similarity b \<le> similarity a) ?rows"
    by (intro sorted_wrt_take_desc sorted_order_by)
  have t: "\<forall>r \<in> set ?rows. th < similarity r"
    using sub select_matches_sound[of _ distance q th uid "links db"] by fastforce
  have n: "int (length ?rows) \<le> k" using False by simp
  have o: "\<forall>r \<in> set ?rows. \<exists>l \<in> set (links db). \<exists>e.
             user_id l = uid \<and> embedding l = Some e \<and> similarity r = 1 - distance e q
             \<and> m_id r = link_id l \<and> m_url r = url l \<and> m_title r = title l
             \<and> m_image r = image_url l \<and> m_domain r = domain l \<and> m_summary r = summary l"
    using sub select_matches_sound[of _ distance q th uid "links db"] by blast
  show ?thesis unfolding m using False s t n o by simp
qed

lemma zero_embedding_accepted:
  "generateEmbedding (sample_services (EmbeddingsResolved (Array (replicate 1536 (Num 0))))) t
     = Inr (replicate 1536 (Num 0))"
  "to_vector (replicate 1536 (Num 0)) = Some (replicate 1536 0)"
  by (simp_all add: generateEmbedding_Inr sample_services_def list_all_iff to_vector_def
      vector_components_zeros)

text \<open>
  Claim C3. The claim fails on a link whose embedding has norm zero. The provider's answer
  of 1536 zeros passes generateEmbedding and the cast, and createLink stores it. Its
  distance to every query is NaN, so is its similarity, and the store holds NaN above every
  number: with threshold 0.99 and count 1 match_links returns that link, with similarity
  NaN, and not the link whose similarity is 1; with the threshold 0 and the count 5 of
  chatWithLinks it returns the link first, before the link of similarity 1.
\<close>

theorem match_links_zero_embedding_first:
  "generateEmbedding (sample_services (EmbeddingsResolved (Array (replicate 1536 (Num 0)))))
       ''An empty page.''
     = Inr (replicate 1536 (Num 0))
   \<and> to_vector (replicate 1536 (Num 0)) = Some (replicate 1536 0)
   \<and> links zero_database = [stored_link, zero_link]
   \<and> (link_id stored_link, user_id stored_link, embedding stored_link)
       = (6, 7, Some (1 # replicate 1535 0))
   \<and> (link_id zero_link, user_id zero_link, embedding zero_link)
       = (8, 7, Some (replicate 1536 0))
   \<and> 1 - cosine_distance (1 # replicate 1535 0) (1 # replicate 1535 0) = F8 1
   \<and> 1 - cosine_distance (replicate 1536 0) (1 # replicate 1535 0) = NaN8
   \<and> map_option (map (\<lambda>r. (m_id r, similarity r)))
        (match_links cosine_distance (1 # replicate 1535 0) (F8 (99 / 100)) 1 7 zero_database)
       = Some [(8, NaN8)]
   \<and> map_option (map (\<lambda>r. (m_id r, similarity r)))
        (match_links cosine_distance (1 # replicate 1535 0) 0 5 7 zero_database)
       = Some [(8, NaN8), (6, F8 1)]"
proof -
  have s: "1 - cosine_distance (1 # replicate 1535 0) (1 # replicate 1535 0) = F8 1"
    by (simp add: cosine_distance_same float8_arith) (simp add: one_float8_def)
  have z: "1 - cosine_distance (replicate 1536 0) (1 # replicate 1535 0) = NaN8"
    by (simp add: cosine_distance_zero float8_arith)
  have cmp: "F8 (99 / 100) < F8 1" "F8 (99 / 100) < NaN8" "0 < F8 1" "0 < NaN8"
    "F8 1 \<le> NaN8" "\<not> NaN8 \<le> F8 1"
    by (simp_all add: less_float8_def less_eq_float8_def zero_float8_def)
  have a: "map_option (map (\<lambda>r. (m_id r, similarity r)))
        (match_links cosine_distance (1 # replicate 1535 0) (F8 (99 / 100)) 1 7 zero_database)
       = Some [(8, NaN8)]"
    by (simp add: match_links_def zero_database_def stored_link_def zero_link_def s z cmp)
  have b: "map_option (map (\<lambda>r. (m_id r, similarity r)))
        (match_links cosine_distance (1 # replicate 1535 0) 0 5 7 zero_database)
       = Some [(8, NaN8), (6, F8 1)]"
    by (simp add: match_links_def zero_database_def stored_link_def zero_link_def s z cmp)
  have d: "links zero_database = [stored_link, zero_link]"
    by (simp add: zero_database_def)
  have e: "(link_id stored_link, user_id stored_link, embedding stored_link)
       = (6, 7, Some (1 # replicate 1535 0))"
    "(link_id zero_link, user_id zero_link, embedding zero_link)
       = (8, 7, Some (replicate 1536 0))"
    by (simp_all add: stored_link_def zero_link_def)
  show ?thesis using zero_embedding_accepted s z a b d e by (intro conjI)
qed

text \<open>
  Claim C4, as the code has it. match_links orders by similarity alone: the rows it returns
  are in non-increasing order of similarity, and the creation time of a link is no part of
  the query, so the result is the same whatever the creation times are; the order of two
  rows of equal similarity does not follow recency.
\<close>

theorem match_links_ignores_created_at:
  "match_links distance q th k uid (db\<lparr>links := map (\<lambda>l. l\<lparr>created_at := f l\<rparr>) (links db)\<rparr>)
     = match_links distance q th k uid db
   \<and> (\<forall>rows. match_links distance q th k uid db = Some rows \<longrightarrow>
          sorted_wrt (\<lambda>a b. similarity b \<le> similarity a) rows)"
proof
  show "match_links distance q th k uid
          (db\<lparr>links := map (\<lambda>l. l\<lparr>created_at := f l\<rparr>) (links db)\<rparr>)
        = match_links distance q th k uid db"
    by (simp add: match_links_def select_matches_created_at)
  show "\<forall>rows. match_links distance q th k uid db = Some rows \<longrightarrow>
          sorted_wrt (\<lambda>a b. similarity b \<le> similarity a) rows"
    by (auto simp: match_links_def sorted_wrt_take_desc sorted_order_by split: if_splits)
qed

lemma match_links_tied:
  "match_links cosine_distance (1 # replicate 1535 0) 0 5 7 tied_database
       = Some [\<lparr>m_id = 6, m_url = ''https://example.com/a'', m_title = Some ''Saved'',
                m_image = None, m_domain = Some ''example.com'',
                m_summary = Some ''A page about saving pages.'', similarity = 1\<rparr>,
               \<lparr>m_id = 8, m_url = ''https://example.com/b'', m_title = Some ''Saved again'',
                m_image = None, m_domain = Some ''example.com'',
                m_summary = Some ''The same page, saved later.'', similarity = 1\<rparr>]"
  by (simp add: match_links_def tied_database_def newer_link_def stored_link_def
        cosine_distance_same float8_arith)

theorem match_links_ignores_created_at_witness:
  "map_option (map m_id)
     (match_links cosine_distance (1 # replicate 1535 0) 0 5 7
        (tied_database\<lparr>links := map (\<lambda>l. l\<lparr>created_at := 1 - created_at l\<rparr>)
                                    (links tied_database)\<rparr>))
     = Some [6, 8]
   \<and> map created_at (map (\<lambda>l. l\<lparr>created_at := 1 - created_at l\<rparr>) (links tied_database))
       = [1, 0]
   \<and> (\<exists>rows. match_links cosine_distance (1 # replicate 1535 0) 0 5 7 tied_database = Some rows
          \<and> map m_id rows = [6, 8]
          \<and> sorted_wrt (\<lambda>a b. similarity b \<le> similarity a) rows)"
proof -
  note t = match_links_ignores_created_at
             [where distance = cosine_distance and q = "1 # replicate 1535 0" and th = 0
                and k = 5 and uid = 7 and db = tied_database and f = "\<lambda>l. 1 - created_at l"]
  have a: "map_option (map m_id)
     (match_links cosine_distance (1 # replicate 1535 0) 0 5 7
        (tied_database\<lparr>links := map (\<lambda>l. l\<lparr>created_at := 1 - created_at l\<rparr>)
                                    (links tied_database)\<rparr>))
     = Some [6, 8]"
    using t by (simp add: match_links_tied)
  have b: "map created_at (map (\<lambda>l. l\<lparr>created_at := 1 - created_at l\<rparr>) (links tied_database))
       = [1, 0]"
    by (simp add: tied_database_def stored_link_def newer_link_def)
  have c: "\<exists>rows. match_links cosine_distance (1 # replicate 1535 0) 0 5 7 tied_database = Some rows
          \<and> map m_id rows = [6, 8]
          \<and> sorted_wrt (\<lambda>a b. similarity b \<le> similarity a) rows"
    using t by (simp add: match_links_tied)
  show ?thesis using a b c by (intro conjI)
qed

text \<open>
  Two links of one owner with the same embedding, the second created later: both have
  similarity 1 to the query, and the older one comes first.
\<close>

theorem match_links_tie_older_first:
  "links tied_database = [stored_link, newer_link]
   \<and> link_id stored_link = 6 \<and> created_at stored_link = 0
   \<and> link_id newer_link = 8 \<and> created_at newer_link = 1
   \<and> match_links cosine_distance (1 # replicate 1535 0) 0 5 7 tied_database
       = Some [\<lparr>m_id = 6, m_url = ''https://example.com/a'', m_title = Some ''Saved'',
                m_image = None, m_domain = Some ''example.com'',
                m_summary = Some ''A page about saving pages.'', similarity = 1\<rparr>,
               \<lparr>m_id = 8, m_url = ''https://example.com/b'', m_title = Some ''Saved again'',
                m_image = None, m_domain = Some ''example.com'',
                m_summary = Some ''The same page, saved later.'', similarity = 1\<rparr>]"
  by (simp add: match_links_def tied_database_def newer_link_def stored_link_def
        cosine_distance_same float8_arith)





section \<open>Tags of a link in the store\<close>

lemma set_tag_names:
  "set (tag_names i db)
     = {tag_name t | t. t \<in> set (tags db) \<and> (i, tag_id t) \<in> set (link_to_tag db)}"
proof -
  have "set (getTagsForLink i db)
          = {t \<in> set (tags db). (i, tag_id t) \<in> set (link_to_tag db)}"
    unfolding getTagsForLink_def by force
  then show ?thesis unfolding tag_names_def by auto
qed

lemma connect_step:
  assumes inv: "store_invariant db" and i: "i \<in> set (map link_id (links db))"
    and u: "tag_upsert n db = Some (t, db1)"
  shows "\<exists>db2. insert_link_to_tag i (tag_id t) db1 = Some db2
           \<and> store_invariant db2 \<and> links db2 = links db
           \<and> (\<forall>j. set (tag_names j db2) = set (tag_names j db) \<union> (if j = i then {n} else {}))"
proof (cases "tag_find n db")
  case None
  let ?t = "\<lparr>tag_id = uuid_counter db, tag_name = n\<rparr>"
  from None tag_upsert_cases[OF u] have "tag_create n db = Some (t, db1)" by simp
  from tag_create_Some[OF this] have t: "t = ?t"
    and db1: "db1 = db\<lparr>tags := tags db @ [?t], uuid_counter := Suc (uuid_counter db)\<rparr>"
    by simp_all
  have fresh: "\<And>j. (j, uuid_counter db) \<notin> set (link_to_tag db)"
    using inv by (auto simp: store_invariant_def)
  let ?db2 = "db1\<lparr>link_to_tag := link_to_tag db1 @ [(i, tag_id t)]\<rparr>"
  have ins: "insert_link_to_tag i (tag_id t) db1 = Some ?db2"
    using fresh i by (simp add: insert_link_to_tag_def db1 t)
  have inv2: "store_invariant ?db2"
    using inv i unfolding store_invariant_def db1 t
    by (auto simp: less_Suc_eq)
  have old: "\<And>t'. t' \<in> set (tags db) \<Longrightarrow> tag_id t' \<noteq> uuid_counter db"
    using inv by (auto simp: store_invariant_def)
  have names: "\<forall>j. set (tag_names j ?db2) = set (tag_names j db) \<union> (if j = i then {n} else {})"
    unfolding set_tag_names db1 t using fresh old
    by (auto intro: exI[of _ "\<lparr>tag_id = uuid_counter db, tag_name = n\<rparr>"])
  show ?thesis using ins inv2 names by (simp add: db1)
next
  case (Some t0)
  from Some tag_upsert_cases[OF u] have t: "t = t0" and db1: "db1 = db" by simp_all
  from tag_find_Some[OF Some] have t0: "t0 \<in> set (tags db)" "tag_name t0 = n"
    by simp_all
  have uniq: "\<And>t'. t' \<in> set (tags db) \<Longrightarrow> tag_id t' = tag_id t0 \<Longrightarrow> t' = t0"
    using inv t0(1) by (auto simp: store_invariant_def distinct_map inj_on_def)
  show ?thesis
  proof (cases "(i, tag_id t0) \<in> set (link_to_tag db)")
    case True
    then have ins: "insert_link_to_tag i (tag_id t) db1 = Some db"
      by (simp add: insert_link_to_tag_def db1 t)
    have "\<forall>j. set (tag_names j db) = set (tag_names j db) \<union> (if j = i then {n} else {})"
      unfolding set_tag_names using True t0 by auto
    then show ?thesis using ins inv by simp
  next
    case False
    let ?db2 = "db\<lparr>link_to_tag := link_to_tag db @ [(i, tag_id t0)]\<rparr>"
    have ins: "insert_link_to_tag i (tag_id t) db1 = Some ?db2"
      using False i t0(1) by (simp add: insert_link_to_tag_def db1 t)
    have inv2: "store_invariant ?db2"
      using inv i t0(1) unfolding store_invariant_def by auto
    have names: "\<forall>j. set (tag_names j ?db2) = set (tag_names j db) \<union> (if j = i then {n} else {})"
      unfolding set_tag_names using t0 uniq by auto
    show ?thesis using ins inv2 names by simp
  qed
qed

lemma createTagsForLink_tags:
  assumes "store_invariant db" and "i \<in> set (map link_id (links db))"
    and "\<forall>n \<in> set names. storable n"
  shows "fst (createTagsForLink i names db) = Inr ()
         \<and> store_invariant (snd (createTagsForLink i names db))
         \<and> (\<forall>j. set (tag_names j (snd (createTagsForLink i names db)))
                  = set (tag_names j db) \<union> (if j = i then set names else {}))"
  using assms
proof (induction names arbitrary: db)
  case Nil
  then show ?case by simp
next
  case (Cons n names)
  from Cons.prems(3) obtain t db1 where u: "tag_upsert n db = Some (t, db1)"
    using tag_upsert_storable[of n db] by auto
  from connect_step[OF Cons.prems(1,2) u] obtain db2 where
    ins: "insert_link_to_tag i (tag_id t) db1 = Some db2" and inv2: "store_invariant db2"
    and l2: "links db2 = links db"
    and n2: "\<forall>j. set (tag_names j db2) = set (tag_names j db) \<union> (if j = i then {n} else {})"
    by blast
  have i2: "i \<in> set (map link_id (links db2))" using Cons.prems(2) l2 by simp
  have run: "createTagsForLink i (n # names) db = createTagsForLink i names db2"
    using u ins by simp
  have st: "\<forall>n \<in> set names. storable n" using Cons.prems(3) by simp
  from Cons.IH[OF inv2 i2 st] n2 show ?case unfolding run by auto
qed









lemma update_link_invariant:
  assumes "store_invariant db" and "update_link i t s db = Some db1"
  shows "store_invariant db1"
  using assms unfolding store_invariant_def update_link_Some
  by (auto simp: less_Suc_eq image_iff)


lemma update_link_ids:
  "update_link i t s db = Some db1 \<Longrightarrow> map link_id (links db1) = map link_id (links db)"
  by (simp add: update_link_Some)









lemma initial_database_rows:
  "initial_database =
     \<lparr>links = [],
      tags = [\<lparr>tag_id = 0, tag_name = ''Image''\<rparr>, \<lparr>tag_id = 1, tag_name = ''Video''\<rparr>,
              \<lparr>tag_id = 2, tag_name = ''News''\<rparr>, \<lparr>tag_id = 3, tag_name = ''Blog''\<rparr>,
              \<lparr>tag_id = 4, tag_name = ''Music''\<rparr>,
              \<lparr>tag_id = 5, tag_name = ''Social Media Post''\<rparr>],
      link_to_tag = [], uuid_counter = 6, clock = 0\<rparr>"
  by code_simp

lemma article_tags: "generateTags article_services c = [''Article'', ''Blog'']"
  by (simp add: generateTags_def article_services_def Let_def)

lemma article_summary:
  "generateSummary article_services c = ''No summary available due to processing error.''"
  by (simp add: generateSummary_def article_services_def Let_def)

lemma article_embedding: "generateEmbedding article_services c = Inr unit_embedding"
  by (simp add: generateEmbedding_Inr article_services_def unit_embedding_valid)

text \<open>The response and the store of one ingestion from the store as set up.\<close>

lemma sample_ingestion:
  "createLink article_services (Some sample_user) (Valid ''https://example.com/a'')
       initial_database
     = (Response 201 ''Link created successfully''
          (Some \<lparr>res_id = 6, res_url = ''https://example.com/a'', res_title = Some ''Saved'',
                 res_image = None, res_domain = Some ''example.com'',
                 res_summary = Some ''No summary available due to processing error.'',
                 res_tags = [''Blog'', ''Article''],
                 res_embedding = Some (1 # replicate 1535 0),
                 res_createdAt = 0, res_updatedAt = 0\<rparr>),
        \<lparr>links = [\<lparr>link_id = 6, url = ''https://example.com/a'', title = Some ''Saved'',
                    image_url = None, domain = Some ''example.com'',
                    summary = Some ''No summary available due to processing error.'',
                    embedding = Some (1 # replicate 1535 0), created_at = 0, updated_at = 0,
                    user_id = 7\<rparr>],
         tags = [\<lparr>tag_id = 0, tag_name = ''Image''\<rparr>, \<lparr>tag_id = 1, tag_name = ''Video''\<rparr>,
              \<lparr>tag_id = 2, tag_name = ''News''\<rparr>, \<lparr>tag_id = 3, tag_name = ''Blog''\<rparr>,
              \<lparr>tag_id = 4, tag_name = ''Music''\<rparr>,
              \<lparr>tag_id = 5, tag_name = ''Social Media Post''\<rparr>,
              \<lparr>tag_id = 7, tag_name = ''Article''\<rparr>],
         link_to_tag = [(6, 7), (6, 3)], uuid_counter = 8, clock = 1\<rparr>)"
proof -
  have md: "url_metadata article_services ''https://example.com/a''
              = (Some ''Saved'', None, ''example.com'')"
    by (simp add: article_services_def)
  show ?thesis
    unfolding createLink_valid[OF md article_embedding] article_tags article_summary
      to_vector_unit_embedding initial_database_rows
    by (simp add: insert_link_def storable_def storable_opt_def findFirst_link_def
          tag_upsert_def tag_find_def tag_create_def insert_link_to_tag_def Let_def
          formatLinkResponse_def select_embedding_def getTagsForLink_def sample_user_def)
qed


lemma deleteTagsForLink_invariant:
  "store_invariant db \<Longrightarrow> store_invariant (deleteTagsForLink i db)"
  unfolding store_invariant_def deleteTagsForLink_def by auto

lemma deleteTagsForLink_no_tags: "tag_names i (deleteTagsForLink i db) = []"
proof -
  have "set (tag_names i (deleteTagsForLink i db)) = {}"
    unfolding set_tag_names by (auto simp: deleteTagsForLink_def)
  then show ?thesis by simp
qed

text \<open>
  An update with a \<open>tags\<close> field whose texts the store accepts replaces the tags of the
  link by the names given.
\<close>

lemma updateLink_replaces_tags:
  assumes inv: "store_invariant db"
    and found: "findUnique_link i (user_ident usr) db = Some l"
    and tg: "new_tags body = Some tgs"
    and st: "storable_opt (new_title body)" "storable_opt (new_summary body)"
      "\<forall>n \<in> set tgs. storable n"
  shows "status (fst (updateLink (Some usr) i (Valid body) db)) = 200
         \<and> set (tag_names i (snd (updateLink (Some usr) i (Valid body) db))) = set tgs"
proof -
  obtain db1 where w: "update_link i (new_title body) (new_summary body) db = Some db1"
    using st(1,2) by (simp add: update_link_Some)
  let ?db1' = "deleteTagsForLink i db1"
  from found have "l \<in> set (links db)" "link_id l = i"
    by (auto simp: findUnique_link_def find_Some_iff)
  then have i0: "i \<in> set (map link_id (links db))" by force
  then have i1: "i \<in> set (map link_id (links db1))" by (simp add: update_link_ids[OF w])
  then have "find (\<lambda>l. link_id l = i) (links db1) \<noteq> None"
    by (auto simp: find_None_iff)
  then obtain updatedLink where upd: "find (\<lambda>l. link_id l = i) (links db1) = Some updatedLink"
    by blast
  have inv1: "store_invariant ?db1'"
    using update_link_invariant[OF inv w] by (rule deleteTagsForLink_invariant)
  have i1': "i \<in> set (map link_id (links ?db1'))"
    using i1 by (simp add: deleteTagsForLink_def)
  from createTagsForLink_tags[OF inv1 i1' st(3)]
  have ok: "fst (createTagsForLink i tgs ?db1') = Inr ()"
    and names: "set (tag_names i (snd (createTagsForLink i tgs ?db1'))) = set tgs"
    by (simp_all add: deleteTagsForLink_no_tags)
  obtain db2 where r: "createTagsForLink i tgs ?db1' = (Inr (), db2)"
    using ok by (cases "createTagsForLink i tgs ?db1'") auto
  have "updateLink (Some usr) i (Valid body) db
          = (Response 200 ''Link updated successfully''
               (Some (formatLinkResponse updatedLink (select_embedding i db2) (getTagsForLink i db2))),
             db2)"
    using found w upd tg r by (simp add: updateLink_def Let_def)
  then show ?thesis using names r by simp
qed









text \<open>
  An update of that link with two tags, the second a name that the store refuses: the old
  connections are deleted, the first name is connected, the upsert of the second throws,
  and the route answers 500.
\<close>

lemma sample_update_refused:
  "updateLink (Some sample_user) 6
       (Valid \<lparr>new_title = None, new_summary = None,
               new_tags = Some [''Tool'', name_with_nul]\<rparr>)
       (snd (createLink article_services (Some sample_user) (Valid ''https://example.com/a'')
               initial_database))
     = (Response 500 ''Server error updating link'' None,
        \<lparr>links = [\<lparr>link_id = 6, url = ''https://example.com/a'', title = Some ''Saved'',
                    image_url = None, domain = Some ''example.com'',
                    summary = Some ''No summary available due to processing error.'',
                    embedding = Some (1 # replicate 1535 0), created_at = 0, updated_at = 1,
                    user_id = 7\<rparr>],
         tags = [\<lparr>tag_id = 0, tag_name = ''Image''\<rparr>, \<lparr>tag_id = 1, tag_name = ''Video''\<rparr>,
              \<lparr>tag_id = 2, tag_name = ''News''\<rparr>, \<lparr>tag_id = 3, tag_name = ''Blog''\<rparr>,
              \<lparr>tag_id = 4, tag_name = ''Music''\<rparr>,
              \<lparr>tag_id = 5, tag_name = ''Social Media Post''\<rparr>,
              \<lparr>tag_id = 7, tag_name = ''Article''\<rparr>,
              \<lparr>tag_id = 8, tag_name = ''Tool''\<rparr>],
         link_to_tag = [(6, 8)], uuid_counter = 9, clock = 2\<rparr>)"
  unfolding sample_ingestion snd_conv
  by (simp add: updateLink_def findUnique_link_def update_link_def deleteTagsForLink_def
        storable_def storable_opt_def sample_user_def name_with_nul_def
        tag_upsert_def tag_find_def tag_create_def insert_link_to_tag_def Let_def)




section \<open>Tag upsert and connection, alone and interleaved\<close>












































end
